theory Spec2Isabelle
  imports Main "HOL-Library.Product_Lexorder" "HOL-Library.Sublist"
begin

section \<open>khal/aux.py: from token lists to calendar events\<close>

text \<open>
  The module turns a list of command-line tokens into an icalendar event. The token
  list is mutated in place by the parsers, so every parser of the model returns the
  list as it is left behind, also when it raises. Exceptions are values of \<open>exn\<close>
  on the left of a sum. What the module takes from libraries (strptime, the clock,
  the timezone database, the text decoder of khal.compat, the random source) is a
  field of the record \<open>env\<close>.
\<close>

subsection \<open>Exceptions and the fatal log\<close>

datatype exn =
  ValueError | IndexError | OverflowError | FatalError
  | UnknownTimeZoneError | UnicodeDecodeError | OtherError

text \<open>One entry per call of \<open>logger.fatal\<close>, with the text it formats in.\<close>

datatype fatal_msg = CannotParse string | CannotParseUntil "string list" | InvalidRepeat

definition bnd :: "exn + 'a \<Rightarrow> ('a \<Rightarrow> exn + 'b) \<Rightarrow> exn + 'b" where
  "bnd r f = (case r of Inl e \<Rightarrow> Inl e | Inr v \<Rightarrow> f v)"

subsection \<open>datetime, date and timedelta of the standard library\<close>

record datetime =
  year :: int
  month :: int
  day :: int
  hour :: int
  minute :: int
  second :: int
  microsecond :: int

type_synonym date = "int \<times> int \<times> int"

definition is_leap :: "int \<Rightarrow> bool" where
  "is_leap y = (y mod 4 = 0 \<and> (y mod 100 \<noteq> 0 \<or> y mod 400 = 0))"

definition days_in_month :: "int \<Rightarrow> int \<Rightarrow> int" where
  "days_in_month y m =
     (if m = 2 then (if is_leap y then 29 else 28)
      else if m = 4 \<or> m = 6 \<or> m = 9 \<or> m = 11 then 30 else 31)"

text \<open>
  \<open>timetuple()\<close>: the module only ever slices below index 6, so the model keeps the
  first six fields (weekday, day of the year and the DST flag are never read).
\<close>

definition timetuple :: "datetime \<Rightarrow> int list" where
  "timetuple d = [year d, month d, day d, hour d, minute d, second d]"

text \<open>The slice \<open>t[a:b]\<close> for non-negative bounds.\<close>

definition slice :: "nat \<Rightarrow> nat \<Rightarrow> 'a list \<Rightarrow> 'a list" where
  "slice a b xs = take (b - a) (drop a xs)"

definition arg_or0 :: "int list \<Rightarrow> nat \<Rightarrow> int" where
  "arg_or0 xs i = (if i < length xs then xs ! i else 0)"

text \<open>
  The constructor \<open>datetime(*args)\<close> with three to six positional arguments: hour,
  minute and second default to 0, the fields are range-checked (ValueError).
\<close>

definition datetime_new :: "int list \<Rightarrow> exn + datetime" where
  "datetime_new args =
     (if length args < 3 \<or> 6 < length args then Inl OtherError
      else
        let y = args ! 0; m = args ! 1; d = args ! 2;
            H = arg_or0 args 3; M = arg_or0 args 4; S = arg_or0 args 5
        in if 1 \<le> y \<and> y \<le> 9999 \<and> 1 \<le> m \<and> m \<le> 12 \<and> 1 \<le> d \<and> d \<le> days_in_month y m
              \<and> 0 \<le> H \<and> H \<le> 23 \<and> 0 \<le> M \<and> M \<le> 59 \<and> 0 \<le> S \<and> S \<le> 59
           then Inr \<lparr>year = y, month = m, day = d, hour = H, minute = M, second = S,
                     microsecond = 0\<rparr>
           else Inl ValueError)"

text \<open>The fields of every datetime object that the library hands out are in range.\<close>

definition valid_datetime :: "datetime \<Rightarrow> bool" where
  "valid_datetime d =
     (1 \<le> year d \<and> year d \<le> 9999 \<and> 1 \<le> month d \<and> month d \<le> 12 \<and>
      1 \<le> day d \<and> day d \<le> days_in_month (year d) (month d) \<and>
      0 \<le> hour d \<and> hour d \<le> 23 \<and> 0 \<le> minute d \<and> minute d \<le> 59 \<and>
      0 \<le> second d \<and> second d \<le> 59 \<and> 0 \<le> microsecond d \<and> microsecond d \<le> 999999)"

text \<open>
  A time of day is (hour, minute, second, microsecond); \<open>dtime(*args)\<close> is called
  with up to two arguments, the others default to 0.
\<close>

type_synonym dtime = "int \<times> int \<times> int \<times> int"

definition dtime_new :: "int list \<Rightarrow> exn + dtime" where
  "dtime_new args =
     (if 2 < length args then Inl OtherError
      else
        let H = arg_or0 args 0; M = arg_or0 args 1
        in if 0 \<le> H \<and> H \<le> 23 \<and> 0 \<le> M \<and> M \<le> 59 then Inr (H, M, 0, 0)
           else Inl ValueError)"

definition combine :: "date \<Rightarrow> dtime \<Rightarrow> datetime" where
  "combine dt tm =
     (case (dt, tm) of ((y, m, d), (H, M, S, us)) \<Rightarrow>
        \<lparr>year = y, month = m, day = d, hour = H, minute = M, second = S,
         microsecond = us\<rparr>)"

definition date_of :: "datetime \<Rightarrow> date" where
  "date_of d = (year d, month d, day d)"

definition time_of :: "datetime \<Rightarrow> dtime" where
  "time_of d = (hour d, minute d, second d, microsecond d)"

text \<open>Comparison of naive datetimes: lexicographic on all seven fields.\<close>

definition dt_key :: "datetime \<Rightarrow> int \<times> int \<times> int \<times> int \<times> int \<times> int \<times> int" where
  "dt_key d = (year d, month d, day d, hour d, minute d, second d, microsecond d)"

definition dt_less :: "datetime \<Rightarrow> datetime \<Rightarrow> bool" where
  "dt_less a b = (dt_key a < dt_key b)"

text \<open>Calendar successor and predecessor of a date, and a shift by whole days.\<close>

definition next_day :: "date \<Rightarrow> date" where
  "next_day dt =
     (case dt of (y, m, d) \<Rightarrow>
        if d < days_in_month y m then (y, m, d + 1)
        else if m < 12 then (y, m + 1, 1)
        else (y + 1, 1, 1))"

definition prev_day :: "date \<Rightarrow> date" where
  "prev_day dt =
     (case dt of (y, m, d) \<Rightarrow>
        if 1 < d then (y, m, d - 1)
        else if 1 < m then (y, m - 1, days_in_month y (m - 1))
        else (y - 1, 12, 31))"

function shift_days :: "int \<Rightarrow> date \<Rightarrow> date" where
  "shift_days n dt =
     (if n = 0 then dt
      else if 0 < n then shift_days (n - 1) (next_day dt)
      else shift_days (n + 1) (prev_day dt))"
  by pat_completeness auto
termination
  by (relation "measure (\<lambda>(n, dt). nat \<bar>n\<bar>)") auto

declare shift_days.simps [simp del]

text \<open>
  \<open>d + timedelta(days=n)\<close> and \<open>d + timedelta(minutes=n)\<close>: the time of day and the
  date move, seconds and microseconds stay; a result outside the years 1 to 9999 is
  an OverflowError.
\<close>

definition with_date :: "datetime \<Rightarrow> date \<Rightarrow> int \<Rightarrow> int \<Rightarrow> exn + datetime" where
  "with_date d dt H M =
     (case dt of (y, m, dd) \<Rightarrow>
        if 1 \<le> y \<and> y \<le> 9999
        then Inr (d\<lparr>year := y, month := m, day := dd, hour := H, minute := M\<rparr>)
        else Inl OverflowError)"

definition add_days :: "datetime \<Rightarrow> int \<Rightarrow> exn + datetime" where
  "add_days d n = with_date d (shift_days n (date_of d)) (hour d) (minute d)"

definition add_minutes :: "datetime \<Rightarrow> int \<Rightarrow> exn + datetime" where
  "add_minutes d n =
     (let total = hour d * 60 + minute d + n
      in with_date d (shift_days (total div 1440) (date_of d))
           ((total mod 1440) div 60) ((total mod 1440) mod 60))"

subsection \<open>The environment\<close>

type_synonym tzinfo = string
type_synonym tokens = "string list"

record env =
  datetime_strptime :: "string \<Rightarrow> string \<Rightarrow> datetime option"
  time_strptime :: "string \<Rightarrow> string \<Rightarrow> int list option"
  module_today :: datetime
  datetime_today :: datetime
  date_today :: date
  datetime_now :: datetime
  pytz_timezone :: "string \<Rightarrow> exn + tzinfo"
  to_unicode :: "string \<Rightarrow> string \<Rightarrow> exn + string"
  random_uid :: string

text \<open>
  \<^item> \<open>datetime_strptime\<close>, \<open>time_strptime\<close>: \<open>datetime.strptime\<close> and \<open>time.strptime\<close>;
    None is their ValueError. The second returns a struct_time, of which the module
    reads the slice \<open>[3:5]\<close>.
  \<^item> \<open>module_today\<close>: \<open>datetime.today()\<close> when the module was loaded, the default of
    \<open>default_day\<close> in guessdatetimefstr (a default argument is evaluated once).
  \<^item> \<open>datetime_today\<close>, \<open>date_today\<close>, \<open>datetime_now\<close>: the clock during the call.
  \<^item> \<open>pytz_timezone\<close>: the lookup by name, with the exception it raises.
  \<^item> \<open>to_unicode\<close>: the decoder of khal.compat, applied to text and encoding.
  \<^item> \<open>random_uid\<close>: the 36 characters drawn by generate_random_uid.
\<close>

subsection \<open>Token parsers\<close>

fun str_join :: "string \<Rightarrow> string list \<Rightarrow> string" where
  "str_join sep [] = []"
| "str_join sep [x] = x"
| "str_join sep (x # y # xs) = x @ sep @ str_join sep (y # xs)"

text \<open>timefstr, lines 41 to 56.\<close>

definition timefstr :: "env \<Rightarrow> tokens \<Rightarrow> string \<Rightarrow> (exn + datetime) \<times> tokens" where
  "timefstr E date_list timeformat =
     (case date_list of
        [] \<Rightarrow> (Inl IndexError, date_list)
      | tok # rest \<Rightarrow>
          (case time_strptime E tok timeformat of
             None \<Rightarrow> (Inl ValueError, date_list)
           | Some time_start \<Rightarrow>
               (case dtime_new (slice 3 5 time_start) of
                  Inl e \<Rightarrow> (Inl e, date_list)
                | Inr tm \<Rightarrow> (Inr (combine (date_today E) tm), rest))))"

text \<open>The loop \<open>for _ in range(parts): date_list.pop(0)\<close>.\<close>

fun pop_times :: "nat \<Rightarrow> tokens \<Rightarrow> (exn + unit) \<times> tokens" where
  "pop_times 0 l = (Inr (), l)"
| "pop_times (Suc n) [] = (Inl IndexError, [])"
| "pop_times (Suc n) (x # l) = pop_times n l"

text \<open>datetimefstr, lines 59 to 74.\<close>

definition datetimefstr :: "env \<Rightarrow> tokens \<Rightarrow> string \<Rightarrow> (exn + datetime) \<times> tokens" where
  "datetimefstr E date_list dtformat =
     (let parts = count_list dtformat (CHR '' '') + 1;
          dtstring = str_join '' '' (take parts date_list)
      in case datetime_strptime E dtstring dtformat of
           None \<Rightarrow> (Inl ValueError, date_list)
         | Some dtstart \<Rightarrow>
             (case pop_times parts date_list of
                (Inl e, l) \<Rightarrow> (Inl e, l)
              | (Inr u, l) \<Rightarrow> (Inr dtstart, l)))"

text \<open>The two local functions of guessdatetimefstr, lines 78 to 86.\<close>

definition timefstr_day ::
  "env \<Rightarrow> datetime \<Rightarrow> tokens \<Rightarrow> string \<Rightarrow> (exn + datetime) \<times> tokens" where
  "timefstr_day E default_day date_list timeformat =
     (case timefstr E date_list timeformat of
        (Inl e, l) \<Rightarrow> (Inl e, l)
      | (Inr dt, l) \<Rightarrow>
          (datetime_new (slice 0 3 (timetuple default_day) @ slice 3 5 (timetuple dt)), l))"

definition datefstr_year ::
  "env \<Rightarrow> datetime \<Rightarrow> tokens \<Rightarrow> string \<Rightarrow> (exn + datetime) \<times> tokens" where
  "datefstr_year E default_day date_list dateformat =
     (case datetimefstr E date_list dateformat of
        (Inl e, l) \<Rightarrow> (Inl e, l)
      | (Inr dt, l) \<Rightarrow>
          (datetime_new (slice 0 1 (timetuple default_day) @ slice 1 5 (timetuple dt)), l))"

record locale_formats =
  timeformat :: string
  dateformat :: string
  longdateformat :: string
  datetimeformat :: string
  longdatetimeformat :: string

text \<open>The parsing functions that the module puts into its lists of grammars.\<close>

datatype grammar = DatefstrYear | Datetimefstr | TimefstrDay | Timefstr

definition apply_grammar ::
  "env \<Rightarrow> datetime \<Rightarrow> grammar \<Rightarrow> tokens \<Rightarrow> string \<Rightarrow> (exn + datetime) \<times> tokens" where
  "apply_grammar E default_day g date_list dtformat =
     (case g of
        DatefstrYear \<Rightarrow> datefstr_year E default_day date_list dtformat
      | Datetimefstr \<Rightarrow> datetimefstr E date_list dtformat
      | TimefstrDay \<Rightarrow> timefstr_day E default_day date_list dtformat
      | Timefstr \<Rightarrow> timefstr E date_list dtformat)"

definition grammars :: "locale_formats \<Rightarrow> (grammar \<times> string \<times> bool) list" where
  "grammars loc =
     [(DatefstrYear, datetimeformat loc, False),
      (Datetimefstr, longdatetimeformat loc, False),
      (TimefstrDay, timeformat loc, False),
      (DatefstrYear, dateformat loc, True),
      (Datetimefstr, longdateformat loc, True)]"

text \<open>
  The loop of guessdatetimefstr, lines 89 to 101: the first grammar that returns
  wins; a ValueError moves on to the next grammar, on the list as the failed
  grammar left it; any other exception leaves the function.
\<close>

fun try_grammars ::
  "env \<Rightarrow> datetime \<Rightarrow> (grammar \<times> string \<times> bool) list \<Rightarrow> tokens
     \<Rightarrow> (exn + datetime \<times> bool) \<times> tokens" where
  "try_grammars E default_day [] l = (Inl ValueError, l)"
| "try_grammars E default_day ((g, dtformat, all_day) # gs) l =
     (case apply_grammar E default_day g l dtformat of
        (Inr dtstart, l') \<Rightarrow> (Inr (dtstart, all_day), l')
      | (Inl e, l') \<Rightarrow>
          if e = ValueError then try_grammars E default_day gs l' else (Inl e, l'))"

definition guessdatetimefstr ::
  "env \<Rightarrow> tokens \<Rightarrow> locale_formats \<Rightarrow> datetime \<Rightarrow> (exn + datetime \<times> bool) \<times> tokens" where
  "guessdatetimefstr E dtime_list loc default_day =
     try_grammars E default_day (grammars loc) dtime_list"

subsection \<open>construct_event\<close>

record ce_args = locale_formats +
  date_list :: tokens
  default_timezone :: tzinfo
  defaulttimelen :: int
  defaultdatelen :: int
  encoding :: string
  description :: "string option"
  location :: "string option"
  repeat :: "string option"
  until :: "tokens option"
  now_fn :: datetime

text \<open>
  The keyword arguments default to None; \<open>until\<close> is handed to the token parsers and
  is therefore a token list; \<open>now_fn\<close> is the value that \<open>_now()\<close> returns.
\<close>

datatype prop_value =
  VDateTime datetime "tzinfo option" | VDate date | VText string
  | VRrule string "datetime option"

text \<open>An icalendar event as the list of its \<open>add\<close> calls, in order.\<close>

type_synonym event = "(string \<times> prop_value) list"

definition localize :: "tzinfo \<Rightarrow> datetime \<Rightarrow> prop_value" where
  "localize tz d = VDateTime d (Some tz)"

text \<open>Truth value of an optional string and of an optional list.\<close>

definition truthy :: "'a list option \<Rightarrow> bool" where
  "truthy v = (case v of None \<Rightarrow> False | Some s \<Rightarrow> s \<noteq> [])"

definition locale_of :: "ce_args \<Rightarrow> locale_formats" where
  "locale_of a =
     \<lparr>timeformat = timeformat a, dateformat = dateformat a,
      longdateformat = longdateformat a, datetimeformat = datetimeformat a,
      longdatetimeformat = longdatetimeformat a\<rparr>"

text \<open>Lines 188 to 193: the start; a ValueError is reported and becomes FatalError.\<close>

definition resolve_start ::
  "env \<Rightarrow> ce_args \<Rightarrow> (exn + datetime \<times> bool) \<times> fatal_msg list \<times> tokens" where
  "resolve_start E a =
     (case guessdatetimefstr E (date_list a) (locale_of a) (module_today E) of
        (Inr r, l) \<Rightarrow> (Inr r, [], l)
      | (Inl e, l) \<Rightarrow>
          if e = ValueError then (Inl FatalError, [CannotParse (str_join '' '' l)], l)
          else (Inl e, [], l))"

text \<open>Lines 195 to 201: the end, with the start as reference day, or the default length.\<close>

definition resolve_end ::
  "env \<Rightarrow> ce_args \<Rightarrow> datetime \<Rightarrow> bool \<Rightarrow> tokens \<Rightarrow> (exn + datetime) \<times> tokens" where
  "resolve_end E a dtstart all_day l =
     (case guessdatetimefstr E l (locale_of a) dtstart of
        (Inr (dtend, u), l') \<Rightarrow> (Inr dtend, l')
      | (Inl e, l') \<Rightarrow>
          if e = ValueError
          then (if all_day then add_days dtstart (defaultdatelen a - 1)
                else add_minutes dtstart (defaulttimelen a), l')
          else (Inl e, l'))"

text \<open>Lines 203 to 210: the steps taken for an all-day event only.\<close>

definition repair_all_day :: "datetime \<Rightarrow> datetime \<Rightarrow> datetime \<Rightarrow> exn + datetime" where
  "repair_all_day today dtstart dtend =
     bnd (add_days dtend 1) (\<lambda>dtend.
     bnd (if year dtend = year today \<and> year dtstart \<noteq> year today
          then datetime_new (year dtstart # slice 1 6 (timetuple dtend))
          else Inr dtend) (\<lambda>dtend.
       if dt_less dtend dtstart
       then datetime_new ((year dtend + 1) # slice 1 6 (timetuple dtend))
       else Inr dtend))"

text \<open>Lines 212 to 216: the two steps taken for every event.\<close>

definition repair_order :: "datetime \<Rightarrow> datetime \<Rightarrow> exn + datetime" where
  "repair_order dtstart dtend =
     bnd (if dt_less dtend dtstart
          then datetime_new (slice 0 3 (timetuple dtstart) @ slice 3 5 (timetuple dtend))
          else Inr dtend) (\<lambda>dtend.
       if dt_less dtend dtstart then add_days dtend 1 else Inr dtend)"

definition repair :: "datetime \<Rightarrow> bool \<Rightarrow> datetime \<Rightarrow> datetime \<Rightarrow> exn + datetime" where
  "repair today all_day dtstart dtend =
     bnd (if all_day then repair_all_day today dtstart dtend else Inr dtend)
       (repair_order dtstart)"

text \<open>
  Lines 217 to 229: dates for an all-day event; otherwise the first remaining token
  is looked up as a timezone. \<open>date_list[0]\<close> on an empty list is an IndexError,
  which the handler does not catch.
\<close>

definition localize_step ::
  "env \<Rightarrow> ce_args \<Rightarrow> bool \<Rightarrow> datetime \<Rightarrow> datetime \<Rightarrow> tokens
     \<Rightarrow> (exn + prop_value \<times> prop_value) \<times> tokens" where
  "localize_step E a all_day dtstart dtend l =
     (if all_day then (Inr (VDate (date_of dtstart), VDate (date_of dtend)), l)
      else
        (case l of
           [] \<Rightarrow> (Inl IndexError, l)
         | tok # rest \<Rightarrow>
             (case pytz_timezone E tok of
                Inr tz \<Rightarrow> (Inr (localize tz dtstart, localize tz dtend), rest)
              | Inl e \<Rightarrow>
                  if e = UnknownTimeZoneError \<or> e = UnicodeDecodeError
                  then (Inr (localize (default_timezone a) dtstart,
                             localize (default_timezone a) dtend), l)
                  else (Inl e, l))))"

text \<open>\<open>s.split(sep, 1)\<close> for a non-empty separator: one or two pieces.\<close>

fun split_once :: "string \<Rightarrow> string \<Rightarrow> string list" where
  "split_once sep [] = [Nil]"
| "split_once sep (c # cs) =
     (if prefix sep (c # cs) then [Nil, drop (length sep) (c # cs)]
      else (case split_once sep cs of
              [] \<Rightarrow> []
            | p # ps \<Rightarrow> (c # p) # ps))"

text \<open>Lines 233 to 240: summary and description from the text.\<close>

definition split_text :: "ce_args \<Rightarrow> string \<Rightarrow> string \<times> string option" where
  "split_text a text =
     (if \<not> truthy (description a) \<or> \<not> truthy (location a)
      then
        (let pieces = split_once '' :: '' text
         in (pieces ! 0, if 1 < length pieces then Some (pieces ! 1) else description a))
      else (text, description a))"

text \<open>Lines 251 to 260: the grammars tried on \<open>until\<close>, without year inference.\<close>

definition until_grammars :: "ce_args \<Rightarrow> (grammar \<times> string) list" where
  "until_grammars a =
     [(Datetimefstr, datetimeformat a), (Datetimefstr, longdatetimeformat a),
      (Timefstr, timeformat a), (Datetimefstr, dateformat a),
      (Datetimefstr, longdateformat a)]"

fun try_until ::
  "env \<Rightarrow> datetime \<Rightarrow> (grammar \<times> string) list \<Rightarrow> tokens \<Rightarrow> (exn + datetime option) \<times> tokens"
  where
  "try_until E dd [] u = (Inr None, u)"
| "try_until E dd ((g, dformat) # gs) u =
     (case apply_grammar E dd g u dformat of
        (Inr until_date, u') \<Rightarrow> (Inr (Some until_date), u')
      | (Inl e, u') \<Rightarrow> if e = ValueError then try_until E dd gs u' else (Inl e, u'))"

text \<open>Lines 246 to 271: the recurrence rule.\<close>

definition add_rrule :: "env \<Rightarrow> ce_args \<Rightarrow> event \<Rightarrow> (exn + event) \<times> fatal_msg list" where
  "add_rrule E a ev =
     (if truthy (repeat a) \<and> repeat a \<noteq> Some ''none''
      then
        (if the (repeat a) \<in> set [''daily'', ''weekly'', ''monthly'', ''yearly'']
         then
           (if truthy (until a)
            then
              (case fst (try_until E (module_today E) (until_grammars a) (the (until a))) of
                 Inl e \<Rightarrow> (Inl e, [])
               | Inr None \<Rightarrow> (Inl FatalError, [CannotParseUntil (the (until a))])
               | Inr (Some until_date) \<Rightarrow>
                   (Inr (ev @ [(''rrule'', VRrule (the (repeat a)) (Some until_date))]), []))
            else (Inr (ev @ [(''rrule'', VRrule (the (repeat a)) None)]), []))
         else (Inl FatalError, [InvalidRepeat]))
      else (Inr ev, []))"

text \<open>
  construct_event, lines 180 to 278. The result is the event or the exception, the
  calls of \<open>logger.fatal\<close>, and the token list as the call leaves it.
\<close>

definition build_event ::
  "env \<Rightarrow> ce_args \<Rightarrow> prop_value \<Rightarrow> prop_value \<Rightarrow> string \<Rightarrow> (exn + event) \<times> fatal_msg list"
  where
  "build_event E a dtstart dtend text =
     (case split_text a text of
        (summary, descr) \<Rightarrow>
          (case add_rrule E a
                  ((if truthy descr then [(''description'', VText (the descr))] else []) @
                   (if truthy (location a) then [(''location'', VText (the (location a)))]
                    else [])) of
             (Inl e, log) \<Rightarrow> (Inl e, log)
           | (Inr ev, log) \<Rightarrow>
               (Inr (ev @ [(''dtstart'', dtstart), (''dtend'', dtend),
                           (''dtstamp'', VDateTime (now_fn a) None),
                           (''summary'', VText summary),
                           (''uid'', VText (random_uid E))]), log)))"

definition construct_event ::
  "env \<Rightarrow> ce_args \<Rightarrow> (exn + event) \<times> fatal_msg list \<times> tokens" where
  "construct_event E a =
     (case resolve_start E a of
        (Inl e, log, l) \<Rightarrow> (Inl e, log, l)
      | (Inr (dtstart, all_day), log, l) \<Rightarrow>
          (case resolve_end E a dtstart all_day l of
             (Inl e, l1) \<Rightarrow> (Inl e, [], l1)
           | (Inr dtend, l1) \<Rightarrow>
               (case repair (datetime_today E) all_day dtstart dtend of
                  Inl e \<Rightarrow> (Inl e, [], l1)
                | Inr dtend' \<Rightarrow>
                    (case localize_step E a all_day dtstart dtend' l1 of
                       (Inl e, l2) \<Rightarrow> (Inl e, [], l2)
                     | (Inr (vstart, vend), l2) \<Rightarrow>
                         (case to_unicode E (str_join '' '' l2) (encoding a) of
                            Inl e \<Rightarrow> (Inl e, [], l2)
                          | Inr text \<Rightarrow>
                              (case build_event E a vstart vend text of
                                 (r, log') \<Rightarrow> (r, log', l2)))))))"

subsection \<open>new_event\<close>

text \<open>
  The value passed as \<open>dtstart\<close>: a date or a datetime. \<open>isinstance(dtstart, date)\<close>
  holds for both, datetime being a subclass of date, and \<open>datetime.combine\<close> reads
  the calendar date of either.
\<close>

datatype dtstart_arg = DateArg date | DateTimeArg datetime

definition date_part :: "dtstart_arg \<Rightarrow> date" where
  "date_part v = (case v of DateArg d \<Rightarrow> d | DateTimeArg d \<Rightarrow> date_of d)"

definition maybe_localize :: "tzinfo option \<Rightarrow> datetime \<Rightarrow> prop_value" where
  "maybe_localize timezone d = VDateTime d timezone"

definition new_event ::
  "env \<Rightarrow> dtstart_arg option \<Rightarrow> datetime option \<Rightarrow> string option \<Rightarrow> tzinfo option
     \<Rightarrow> datetime \<Rightarrow> exn + event" where
  "new_event E dtstart dtend summary timezone stamp =
     bnd (datetime_new (slice 0 4 (timetuple (datetime_now E)))) (\<lambda>now.
     bnd (add_minutes now 60) (\<lambda>inonehour.
       let dtstart1 =
             (case dtstart of
                None \<Rightarrow> inonehour
              | Some v \<Rightarrow> combine (date_part v) (time_of inonehour))
       in bnd (case dtend of None \<Rightarrow> add_minutes dtstart1 60 | Some e \<Rightarrow> Inr e) (\<lambda>dtend1.
            Inr [(''dtstart'', maybe_localize timezone dtstart1),
                 (''dtend'', maybe_localize timezone dtend1),
                 (''dtstamp'', VDateTime stamp None),
                 (''summary'', VText (case summary of None \<Rightarrow> ''New Event'' | Some s \<Rightarrow> s)),
                 (''uid'', VText (random_uid E))])))"

subsection \<open>A reference environment\<close>

text \<open>
  An instance of the library functions, for evaluating the module on concrete
  input. \<open>ref_strp\<close> matches a format of literal characters and the directives
  \<open>%Y\<close> (four digits), \<open>%m\<close>, \<open>%d\<close>, \<open>%H\<close>, \<open>%M\<close> (two digits, or one where two do
  not fit) against the whole string, as strptime does for these directives; fields
  that the format does not name keep the defaults 1900-01-01 00:00:00, and the
  result must be a valid datetime.
\<close>

definition digit_of :: "char \<Rightarrow> int option" where
  "digit_of c =
     (let n = (of_char c :: nat) in if 48 \<le> n \<and> n \<le> 57 then Some (int n - 48) else None)"

fun number_of :: "int \<Rightarrow> string \<Rightarrow> int option" where
  "number_of acc [] = Some acc"
| "number_of acc (c # cs) =
     (case digit_of c of None \<Rightarrow> None | Some v \<Rightarrow> number_of (10 * acc + v) cs)"

definition take_num :: "nat \<Rightarrow> string \<Rightarrow> int option" where
  "take_num w s = (if 0 < w \<and> w \<le> length s then number_of 0 (take w s) else None)"

definition field_spec :: "char \<Rightarrow> (nat \<times> int \<times> int) option" where
  "field_spec c =
     (if c = CHR ''Y'' then Some (4, 0, 9999)
      else if c = CHR ''m'' then Some (2, 1, 12)
      else if c = CHR ''d'' then Some (2, 1, 31)
      else if c = CHR ''H'' then Some (2, 0, 23)
      else if c = CHR ''M'' then Some (2, 0, 59)
      else None)"

definition set_field :: "char \<Rightarrow> int \<Rightarrow> datetime \<Rightarrow> datetime" where
  "set_field c v d =
     (if c = CHR ''Y'' then d\<lparr>year := v\<rparr>
      else if c = CHR ''m'' then d\<lparr>month := v\<rparr>
      else if c = CHR ''d'' then d\<lparr>day := v\<rparr>
      else if c = CHR ''H'' then d\<lparr>hour := v\<rparr>
      else d\<lparr>minute := v\<rparr>)"

definition fits :: "int option \<Rightarrow> int \<Rightarrow> int \<Rightarrow> bool" where
  "fits v lo hi = (case v of None \<Rightarrow> False | Some n \<Rightarrow> lo \<le> n \<and> n \<le> hi)"

fun ref_strp :: "string \<Rightarrow> string \<Rightarrow> datetime \<Rightarrow> datetime option" where
  "ref_strp [] s acc = (if s = [] then Some acc else None)"
| "ref_strp (f # fmt) s acc =
     (if f \<noteq> CHR ''%''
      then (case s of [] \<Rightarrow> None | ch # s' \<Rightarrow> if ch = f then ref_strp fmt s' acc else None)
      else
        (case fmt of
           [] \<Rightarrow> None
         | c # fmt' \<Rightarrow>
             (case field_spec c of
                None \<Rightarrow> None
              | Some (w, lo, hi) \<Rightarrow>
                  (case (if fits (take_num w s) lo hi
                         then ref_strp fmt' (drop w s) (set_field c (the (take_num w s)) acc)
                         else None) of
                     Some r \<Rightarrow> Some r
                   | None \<Rightarrow>
                       if w = 2 \<and> fits (take_num 1 s) lo hi
                       then ref_strp fmt' (drop 1 s) (set_field c (the (take_num 1 s)) acc)
                       else None))))"

definition ref_datetime_strptime :: "string \<Rightarrow> string \<Rightarrow> datetime option" where
  "ref_datetime_strptime s fmt =
     (case ref_strp fmt s
             \<lparr>year = 1900, month = 1, day = 1, hour = 0, minute = 0, second = 0,
              microsecond = 0\<rparr> of
        None \<Rightarrow> None
      | Some d \<Rightarrow> (case datetime_new (timetuple d) of Inl e \<Rightarrow> None | Inr d' \<Rightarrow> Some d'))"

definition ref_time_strptime :: "string \<Rightarrow> string \<Rightarrow> int list option" where
  "ref_time_strptime s fmt = map_option timetuple (ref_datetime_strptime s fmt)"

definition mk_datetime :: "int \<Rightarrow> int \<Rightarrow> int \<Rightarrow> int \<Rightarrow> int \<Rightarrow> datetime" where
  "mk_datetime y m d H M =
     \<lparr>year = y, month = m, day = d, hour = H, minute = M, second = 0, microsecond = 0\<rparr>"

text \<open>
  The clock stands at 2024-05-20 08:15; the timezone database knows two names; the
  decoder returns the text as it is (Python 3).
\<close>

definition ref_env :: env where
  "ref_env =
     \<lparr>datetime_strptime = ref_datetime_strptime,
      time_strptime = ref_time_strptime,
      module_today = mk_datetime 2024 5 20 8 15,
      datetime_today = mk_datetime 2024 5 20 8 15,
      date_today = (2024, 5, 20),
      datetime_now = mk_datetime 2024 5 20 8 15,
      pytz_timezone =
        (\<lambda>name. if name = ''Europe/Berlin'' \<or> name = ''UTC'' then Inr name
                 else Inl UnknownTimeZoneError),
      to_unicode = (\<lambda>text enc. Inr text),
      random_uid = ''0123456789ABCDEFGHIJKLMNOPQRSTUVWXYZ''\<rparr>"

text \<open>Formats in ISO style and in the German style of khal's documentation.\<close>

definition iso_args :: "tokens \<Rightarrow> ce_args" where
  "iso_args l =
     \<lparr>timeformat = ''%H:%M'', dateformat = ''%m-%d'', longdateformat = ''%Y-%m-%d'',
      datetimeformat = ''%m-%d %H:%M'', longdatetimeformat = ''%Y-%m-%d %H:%M'',
      date_list = l, default_timezone = ''Europe/Berlin'', defaulttimelen = 60,
      defaultdatelen = 1, encoding = ''utf-8'', description = None, location = None,
      repeat = None, until = None, now_fn = mk_datetime 2024 5 20 8 15\<rparr>"

definition de_args :: "tokens \<Rightarrow> ce_args" where
  "de_args l =
     \<lparr>timeformat = ''%H:%M'', dateformat = ''%d.%m.'', longdateformat = ''%d.%m.%Y'',
      datetimeformat = ''%d.%m. %H:%M'', longdatetimeformat = ''%d.%m.%Y %H:%M'',
      date_list = l, default_timezone = ''Europe/Berlin'', defaulttimelen = 60,
      defaultdatelen = 1, encoding = ''utf-8'', description = None, location = None,
      repeat = None, until = None, now_fn = mk_datetime 2024 5 20 8 15\<rparr>"

section \<open>Concrete events\<close>

text \<open>Events that the module builds in the reference environment.\<close>

definition holiday_event :: event where
  "holiday_event =
     [(''dtstart'', VDate (2024, 12, 20)), (''dtend'', VDate (2025, 2, 28)),
      (''dtstamp'', VDateTime (mk_datetime 2024 5 20 8 15) None),
      (''summary'', VText ''holiday''),
      (''uid'', VText ''0123456789ABCDEFGHIJKLMNOPQRSTUVWXYZ'')]"


definition standup_event :: event where
  "standup_event =
     [(''dtstart'', VDateTime (mk_datetime 2024 6 1 9 0) (Some ''Europe/Berlin'')),
      (''dtend'', VDateTime (mk_datetime 2024 6 2 8 0) (Some ''Europe/Berlin'')),
      (''dtstamp'', VDateTime (mk_datetime 2024 5 20 8 15) None),
      (''summary'', VText ''standup''),
      (''uid'', VText ''0123456789ABCDEFGHIJKLMNOPQRSTUVWXYZ'')]"

definition july_event :: event where
  "july_event =
     [(''dtstart'', VDateTime (mk_datetime 2024 7 1 9 0) None),
      (''dtend'', VDateTime (mk_datetime 2024 7 1 10 0) None),
      (''dtstamp'', VDateTime (mk_datetime 2024 5 20 8 15) None),
      (''summary'', VText ''New Event''),
      (''uid'', VText ''0123456789ABCDEFGHIJKLMNOPQRSTUVWXYZ'')]"

text \<open>A configuration whose short formats carry the year as well.\<close>

definition iso_year_formats :: locale_formats where
  "iso_year_formats =
     \<lparr>timeformat = ''%H:%M'', dateformat = ''%Y-%m-%d'', longdateformat = ''%Y-%m-%d'',
      datetimeformat = ''%Y-%m-%d %H:%M'', longdatetimeformat = ''%Y-%m-%d %H:%M''\<rparr>"

definition overwritten_event :: event where
  "overwritten_event =
     [(''description'', VText ''bar''),
      (''dtstart'', VDateTime (mk_datetime 2024 10 25 18 0) (Some ''Europe/Berlin'')),
      (''dtend'', VDateTime (mk_datetime 2024 10 25 20 0) (Some ''Europe/Berlin'')),
      (''dtstamp'', VDateTime (mk_datetime 2024 5 20 8 15) None),
      (''summary'', VText ''foo''),
      (''uid'', VText ''0123456789ABCDEFGHIJKLMNOPQRSTUVWXYZ'')]"

definition located_event :: event where
  "located_event =
     [(''description'', VText ''bar''), (''location'', VText ''here''),
      (''dtstart'', VDateTime (mk_datetime 2024 10 25 18 0) (Some ''Europe/Berlin'')),
      (''dtend'', VDateTime (mk_datetime 2024 10 25 20 0) (Some ''Europe/Berlin'')),
      (''dtstamp'', VDateTime (mk_datetime 2024 5 20 8 15) None),
      (''summary'', VText ''foo''),
      (''uid'', VText ''0123456789ABCDEFGHIJKLMNOPQRSTUVWXYZ'')]"

definition mars_event :: event where
  "mars_event =
     [(''dtstart'', VDateTime (mk_datetime 2024 5 20 9 0) (Some ''Europe/Berlin'')),
      (''dtend'', VDateTime (mk_datetime 2024 5 20 10 0) (Some ''Europe/Berlin'')),
      (''dtstamp'', VDateTime (mk_datetime 2024 5 20 8 15) None),
      (''summary'', VText ''Mars trip''),
      (''uid'', VText ''0123456789ABCDEFGHIJKLMNOPQRSTUVWXYZ'')]"

definition utc_event :: event where
  "utc_event =
     [(''dtstart'', VDateTime (mk_datetime 2024 5 20 9 0) (Some ''UTC'')),
      (''dtend'', VDateTime (mk_datetime 2024 5 20 10 0) (Some ''UTC'')),
      (''dtstamp'', VDateTime (mk_datetime 2024 5 20 8 15) None),
      (''summary'', VText ''trip''),
      (''uid'', VText ''0123456789ABCDEFGHIJKLMNOPQRSTUVWXYZ'')]"

definition cut_event :: event where
  "cut_event =
     [(''description'', VText ''b c''),
      (''dtstart'', VDateTime (mk_datetime 2024 5 20 9 0) (Some ''Europe/Berlin'')),
      (''dtend'', VDateTime (mk_datetime 2024 5 20 10 0) (Some ''Europe/Berlin'')),
      (''dtstamp'', VDateTime (mk_datetime 2024 5 20 8 15) None),
      (''summary'', VText ''a''),
      (''uid'', VText ''0123456789ABCDEFGHIJKLMNOPQRSTUVWXYZ'')]"

definition plain_event :: event where
  "plain_event =
     [(''dtstart'', VDateTime (mk_datetime 2024 5 20 18 0) (Some ''Europe/Berlin'')),
      (''dtend'', VDateTime (mk_datetime 2024 5 20 20 0) (Some ''Europe/Berlin'')),
      (''dtstamp'', VDateTime (mk_datetime 2024 5 20 8 15) None),
      (''summary'', VText ''x''),
      (''uid'', VText ''0123456789ABCDEFGHIJKLMNOPQRSTUVWXYZ'')]"

text \<open>
  The order of two values localized in the same zone. pytz's \<open>localize\<close> attaches
  to a wall-clock time the offset from UTC that the zone has there, and datetime
  compares two aware values as follows: with equal offsets it compares the naive
  fields, otherwise the UTC times, wall-clock minus offset. \<open>utcoffset\<close> is the
  zone's rule, in minutes; \<open>us_pacific_2008\<close> is the rule of US/Pacific for the
  year 2008 (\<open>is_dst=False\<close>, the default of \<open>localize\<close>): daylight time from
  9 March 03:00 up to 2 November 01:00, standard time otherwise, the hour skipped
  on 9 March counting as standard time.
\<close>

definition utc_key :: "int \<Rightarrow> datetime \<Rightarrow> date \<times> int \<times> int \<times> int" where
  "utc_key off d =
     (let total = hour d * 60 + minute d - off
      in (shift_days (total div 1440) (date_of d), total mod 1440, second d,
          microsecond d))"

definition aware_less :: "(datetime \<Rightarrow> int) \<Rightarrow> datetime \<Rightarrow> datetime \<Rightarrow> bool" where
  "aware_less utcoffset a b =
     (if utcoffset a = utcoffset b then dt_less a b
      else utc_key (utcoffset a) a < utc_key (utcoffset b) b)"

definition us_pacific_2008 :: "datetime \<Rightarrow> int" where
  "us_pacific_2008 d =
     (if dt_less d (mk_datetime 2008 3 9 3 0) then - 480
      else if dt_less d (mk_datetime 2008 11 2 1 0) then - 420
      else - 480)"

definition gap_event :: event where
  "gap_event =
     [(''dtstart'', VDateTime (mk_datetime 2008 3 9 2 30) (Some ''US/Pacific'')),
      (''dtend'', VDateTime (mk_datetime 2008 3 9 3 0) (Some ''US/Pacific'')),
      (''dtstamp'', VDateTime (mk_datetime 2024 5 20 8 15) None),
      (''summary'', VText ''x''),
      (''uid'', VText ''0123456789ABCDEFGHIJKLMNOPQRSTUVWXYZ'')]"

definition spaced_event :: event where
  "spaced_event =
     [(''dtstart'', VDateTime (mk_datetime 2024 5 20 9 0) (Some ''Europe/Berlin'')),
      (''dtend'', VDateTime (mk_datetime 2024 5 20 10 0) (Some ''Europe/Berlin'')),
      (''dtstamp'', VDateTime (mk_datetime 2024 5 20 8 15) None),
      (''summary'', VText ''a b c''),
      (''uid'', VText ''0123456789ABCDEFGHIJKLMNOPQRSTUVWXYZ'')]"

definition whole_event :: event where
  "whole_event =
     [(''description'', VText ''given''), (''location'', VText ''here''),
      (''dtstart'', VDateTime (mk_datetime 2024 5 20 9 0) (Some ''Europe/Berlin'')),
      (''dtend'', VDateTime (mk_datetime 2024 5 20 10 0) (Some ''Europe/Berlin'')),
      (''dtstamp'', VDateTime (mk_datetime 2024 5 20 8 15) None),
      (''summary'', VText ''a :: b c''),
      (''uid'', VText ''0123456789ABCDEFGHIJKLMNOPQRSTUVWXYZ'')]"

section \<open>Properties\<close>

subsection \<open>The reference strptime\<close>

text \<open>
  Values of the reference instance at inputs used below; Python's strptime returns
  the same (None standing for its ValueError).
\<close>

lemma ref_strptime_values:
  "ref_datetime_strptime ''2024-06-01 09:00'' ''%Y-%m-%d %H:%M''
     = Some (mk_datetime 2024 6 1 9 0)"
  "ref_datetime_strptime ''2024-06-01 09:00'' ''%m-%d %H:%M'' = None"
  "ref_datetime_strptime ''20.12.'' ''%d.%m.'' = Some (mk_datetime 1900 12 20 0 0)"
  "ref_datetime_strptime ''20.12. 28.02.'' ''%d.%m. %H:%M'' = None"
  "ref_datetime_strptime ''25.10.2013'' ''%d.%m.'' = None"
  "ref_datetime_strptime ''25.10.2013'' ''%d.%m.%Y'' = Some (mk_datetime 2013 10 25 0 0)"
  "ref_datetime_strptime ''29.02.'' ''%d.%m.'' = None"
  "ref_datetime_strptime ''2024-02-29 10:00'' ''%Y-%m-%d %H:%M''
     = Some (mk_datetime 2024 2 29 10 0)"
  "ref_datetime_strptime [] ''%d.%m. %H:%M'' = None"
  "ref_time_strptime ''08:00'' ''%H:%M'' = Some [1900, 1, 1, 8, 0, 0]"
  "ref_time_strptime ''28.02.'' ''%H:%M'' = None"
  by code_simp+

subsection \<open>Calendar and ordering\<close>

lemma shift_days_one: "shift_days 1 dt = next_day dt"
  by (simp add: shift_days.simps)

lemma next_day_greater: "dt < next_day dt"
  by (cases dt) (auto simp: next_day_def)

lemma date_less_imp_dt_less: "date_of a < date_of b \<Longrightarrow> dt_less a b"
  by (auto simp: date_of_def dt_less_def dt_key_def)

lemma dt_less_asym: "dt_less a b \<Longrightarrow> \<not> dt_less b a"
  by (simp add: dt_less_def)

lemma add_days_one_date:
  assumes "add_days d 1 = Inr d'"
  shows "date_of d' = next_day (date_of d)"
  using assms
  by (cases "next_day (date_of d)")
     (auto simp: add_days_def with_date_def shift_days_one date_of_def split: if_splits)

lemma datetime_new_date:
  assumes "datetime_new (slice 0 3 (timetuple s) @ xs) = Inr d"
  shows "date_of d = date_of s"
  using assms
  by (auto simp: datetime_new_def slice_def timetuple_def date_of_def Let_def split: if_splits)

lemma repair_order_not_before:
  assumes "repair_order dtstart dtend = Inr e"
  shows "\<not> dt_less e dtstart"
proof (cases "dt_less dtend dtstart")
  case False
  with assms show ?thesis by (simp add: repair_order_def bnd_def)
next
  case True
  then obtain e1 where
    e1: "datetime_new (slice 0 3 (timetuple dtstart) @ slice 3 5 (timetuple dtend)) = Inr e1"
    and rest: "(if dt_less e1 dtstart then add_days e1 1 else Inr e1) = Inr e"
    using assms by (auto simp: repair_order_def bnd_def split: sum.splits)
  show ?thesis
  proof (cases "dt_less e1 dtstart")
    case False
    with rest show ?thesis by simp
  next
    case True
    with rest have "add_days e1 1 = Inr e" by simp
    then have "date_of e = next_day (date_of e1)" by (rule add_days_one_date)
    also have "date_of e1 = date_of dtstart" using e1 by (rule datetime_new_date)
    finally have "date_of dtstart < date_of e" by (simp add: next_day_greater)
    then have "dt_less dtstart e" by (rule date_less_imp_dt_less)
    then show ?thesis by (rule dt_less_asym)
  qed
qed

lemma repair_not_before:
  assumes "repair today all_day dtstart dtend = Inr e"
  shows "\<not> dt_less e dtstart"
  using assms
  by (auto simp: repair_def bnd_def split: sum.splits if_splits dest: repair_order_not_before)

lemma not_dt_less_date: "\<not> dt_less e s \<Longrightarrow> \<not> date_of e < date_of s"
  using date_less_imp_dt_less by blast


subsection \<open>The phases of construct_event\<close>

lemma add_rrule_keys:
  assumes "add_rrule E a ev0 = (Inr ev1, log)"
  shows "fst ` set ev1 \<subseteq> fst ` set ev0 \<union> {''rrule''}"
  using assms
  by (auto simp: add_rrule_def split: if_splits sum.splits option.splits)

lemma map_of_after:
  assumes "k \<notin> fst ` set pre"
  shows "map_of (pre @ post) k = map_of post k"
proof -
  from assms have "map_of pre k = None" by (simp add: map_of_eq_None_iff)
  then show ?thesis by (simp add: map_add_def)
qed

lemma build_event_window:
  assumes "build_event E a vstart vend text = (Inr ev, log)"
  shows "map_of ev ''dtstart'' = Some vstart \<and> map_of ev ''dtend'' = Some vend"
proof -
  obtain summary descr where sp: "split_text a text = (summary, descr)"
    by (cases "split_text a text")
  define ev0 where "ev0 =
    (if truthy descr then [(''description'', VText (the descr))] else []) @
    (if truthy (location a) then [(''location'', VText (the (location a)))] else [])"
  from assms sp obtain ev1 where
    rr: "add_rrule E a ev0 = (Inr ev1, log)" and
    ev: "ev = ev1 @ [(''dtstart'', vstart), (''dtend'', vend),
                     (''dtstamp'', VDateTime (now_fn a) None),
                     (''summary'', VText summary), (''uid'', VText (random_uid E))]"
    by (auto simp: build_event_def ev0_def split: sum.splits prod.splits)
  have keys0: "fst ` set ev0 \<subseteq> {''description'', ''location''}"
    by (auto simp: ev0_def)
  from add_rrule_keys [OF rr] keys0
  have keys1: "fst ` set ev1 \<subseteq> {''description'', ''location'', ''rrule''}" by blast
  have "''dtstart'' \<notin> fst ` set ev1" and "''dtend'' \<notin> fst ` set ev1"
    using keys1 by auto
  then show ?thesis
    unfolding ev by (simp add: map_of_after del: map_of_append)
qed

lemma localize_step_values:
  assumes "localize_step E a all_day s e l = (Inr (vs, ve), l')"
  shows "(all_day \<and> vs = VDate (date_of s) \<and> ve = VDate (date_of e)) \<or>
         (\<not> all_day \<and> (\<exists>tz. vs = VDateTime s (Some tz) \<and> ve = VDateTime e (Some tz)))"
  using assms
  by (auto simp: localize_step_def localize_def split: if_splits list.splits sum.splits)

lemma construct_event_phases:
  assumes "construct_event E a = (Inr ev, log, lf)"
  shows "\<exists>s ad log0 l0 e l1 e' vs ve body log'.
           resolve_start E a = (Inr (s, ad), log0, l0) \<and>
           resolve_end E a s ad l0 = (Inr e, l1) \<and>
           repair (datetime_today E) ad s e = Inr e' \<and>
           localize_step E a ad s e' l1 = (Inr (vs, ve), lf) \<and>
           to_unicode E (str_join '' '' lf) (encoding a) = Inr body \<and>
           build_event E a vs ve body = (Inr ev, log')"
  using assms by (auto simp: construct_event_def split: prod.splits sum.splits)

lemma build_event_summary:
  assumes "build_event E a vstart vend body = (Inr ev, log)"
  shows "map_of ev ''summary'' = Some (VText (fst (split_text a body)))"
proof -
  obtain summary descr where sp: "split_text a body = (summary, descr)"
    by (cases "split_text a body")
  define ev0 where "ev0 =
    (if truthy descr then [(''description'', VText (the descr))] else []) @
    (if truthy (location a) then [(''location'', VText (the (location a)))] else [])"
  from assms sp obtain ev1 where
    rr: "add_rrule E a ev0 = (Inr ev1, log)" and
    ev: "ev = ev1 @ [(''dtstart'', vstart), (''dtend'', vend),
                     (''dtstamp'', VDateTime (now_fn a) None),
                     (''summary'', VText summary), (''uid'', VText (random_uid E))]"
    by (auto simp: build_event_def ev0_def split: sum.splits prod.splits)
  have "fst ` set ev0 \<subseteq> {''description'', ''location''}"
    by (auto simp: ev0_def)
  with add_rrule_keys [OF rr]
  have "fst ` set ev1 \<subseteq> {''description'', ''location'', ''rrule''}" by blast
  then have "''summary'' \<notin> fst ` set ev1" by auto
  then show ?thesis
    unfolding ev by (simp add: map_of_after sp del: map_of_append)
qed

text \<open>The exceptions of the date arithmetic: never FatalError.\<close>

lemma datetime_new_exn:
  assumes "datetime_new args = Inl x"
  shows "x = ValueError \<or> x = OtherError"
  using assms by (auto simp: datetime_new_def Let_def split: if_splits)

lemma add_days_exn:
  assumes "add_days d n = Inl x"
  shows "x = OverflowError"
  using assms
  by (cases "shift_days n (date_of d)") (auto simp: add_days_def with_date_def split: if_splits)

lemma repair_order_exn:
  assumes "repair_order dtstart dtend = Inl x"
  shows "x \<noteq> FatalError"
  using assms
  by (auto simp: repair_order_def bnd_def split: sum.splits if_splits
      dest: datetime_new_exn add_days_exn)

subsection \<open>The window of a built event\<close>

lemma construct_event_window:
  assumes "construct_event E a = (Inr ev, log, l)"
  shows "(\<exists>s e tz. map_of ev ''dtstart'' = Some (VDateTime s tz) \<and>
                   map_of ev ''dtend'' = Some (VDateTime e tz) \<and> \<not> dt_less e s) \<or>
         (\<exists>s e. map_of ev ''dtstart'' = Some (VDate s) \<and>
                map_of ev ''dtend'' = Some (VDate e) \<and> \<not> e < s)"
proof -
  from assms obtain dtstart all_day log0 l0 dtend l1 dtend' vstart vend l2 body log' where
    rep: "repair (datetime_today E) all_day dtstart dtend = Inr dtend'" and
    loc: "localize_step E a all_day dtstart dtend' l1 = (Inr (vstart, vend), l2)" and
    bld: "build_event E a vstart vend body = (Inr ev, log')"
    by (auto simp: construct_event_def split: prod.splits sum.splits)
  have ord: "\<not> dt_less dtend' dtstart" using rep by (rule repair_not_before)
  have win: "map_of ev ''dtstart'' = Some vstart \<and> map_of ev ''dtend'' = Some vend"
    using bld by (rule build_event_window)
  from localize_step_values [OF loc] show ?thesis
  proof
    assume "all_day \<and> vstart = VDate (date_of dtstart) \<and> vend = VDate (date_of dtend')"
    with win ord show ?thesis using not_dt_less_date by blast
  next
    assume "\<not> all_day \<and> (\<exists>tz. vstart = VDateTime dtstart (Some tz) \<and>
                                 vend = VDateTime dtend' (Some tz))"
    with win ord show ?thesis by blast
  qed
qed

text \<open>
  Claim C1 as stated fails for timed events: the repair of lines 212 to 216 orders
  the naive values, and the timezone is attached afterwards. With the default
  timezone US/Pacific the tokens 2008-03-09 02:30 03:00 x give the start 02:30 and
  the end 03:00 of the day on which the clocks go from 02:00 to 03:00. The start is
  attached as 02:30 standard time, which is 10:30 UTC, the end as 03:00 daylight
  time, which is 10:00 UTC: the instant attached as dtend is strictly before the
  instant attached as dtstart.
\<close>

theorem construct_event_dst_gap_counterexample:
  "construct_event ref_env
     ((iso_args [''2008-03-09'', ''02:30'', ''03:00'', ''x''])
        \<lparr>default_timezone := ''US/Pacific''\<rparr>)
     = (Inr gap_event, [], [''x'']) \<and>
   map_of gap_event ''dtstart''
     = Some (VDateTime (mk_datetime 2008 3 9 2 30) (Some ''US/Pacific'')) \<and>
   map_of gap_event ''dtend''
     = Some (VDateTime (mk_datetime 2008 3 9 3 0) (Some ''US/Pacific'')) \<and>
   us_pacific_2008 (mk_datetime 2008 3 9 2 30) = - 480 \<and>
   us_pacific_2008 (mk_datetime 2008 3 9 3 0) = - 420 \<and>
   utc_key (- 480) (mk_datetime 2008 3 9 2 30) = ((2008, 3, 9), 630, 0, 0) \<and>
   utc_key (- 420) (mk_datetime 2008 3 9 3 0) = ((2008, 3, 9), 600, 0, 0) \<and>
   aware_less us_pacific_2008 (mk_datetime 2008 3 9 3 0) (mk_datetime 2008 3 9 2 30)"
  by code_simp

text \<open>
  Claim C1, amended. Whenever construct_event returns an event, the value attached
  as dtend is not strictly before the value attached as dtstart as a wall-clock
  value: for a timed event both carry the same timezone and the end's date and time
  of day are not before the start's, so that the end is not before the start as an
  instant either, unless the timezone attaches different UTC offsets to the two;
  for an all-day event both are dates and the end date is not before the start
  date.
\<close>

theorem construct_event_end_not_before_start:
  assumes "construct_event E a = (Inr ev, log, l)"
  shows "(\<exists>s e tz. map_of ev ''dtstart'' = Some (VDateTime s tz) \<and>
                   map_of ev ''dtend'' = Some (VDateTime e tz) \<and> \<not> dt_less e s \<and>
                   (\<forall>utcoffset. utcoffset e = utcoffset s
                      \<longrightarrow> \<not> aware_less utcoffset e s)) \<or>
         (\<exists>s e. map_of ev ''dtstart'' = Some (VDate s) \<and>
                map_of ev ''dtend'' = Some (VDate e) \<and> \<not> e < s)"
proof -
  from construct_event_window [OF assms] show ?thesis
  proof
    assume "\<exists>s e tz. map_of ev ''dtstart'' = Some (VDateTime s tz) \<and>
                   map_of ev ''dtend'' = Some (VDateTime e tz) \<and> \<not> dt_less e s"
    then obtain s e tz where
      w: "map_of ev ''dtstart'' = Some (VDateTime s tz)"
         "map_of ev ''dtend'' = Some (VDateTime e tz)" and
      o: "\<not> dt_less e s"
      by blast
    from o have "\<forall>utcoffset. utcoffset e = utcoffset s \<longrightarrow> \<not> aware_less utcoffset e s"
      by (simp add: aware_less_def)
    with w o show ?thesis by blast
  next
    assume "\<exists>s e. map_of ev ''dtstart'' = Some (VDate s) \<and>
                map_of ev ''dtend'' = Some (VDate e) \<and> \<not> e < s"
    then show ?thesis by blast
  qed
qed

theorem construct_event_end_not_before_start_witness:
  "construct_event ref_env (de_args [''20.12.'', ''27.02.'', ''holiday''])
     = (Inr holiday_event, [], [''holiday'']) \<and>
   map_of holiday_event ''dtstart'' = Some (VDate (2024, 12, 20)) \<and>
   map_of holiday_event ''dtend'' = Some (VDate (2025, 2, 28)) \<and>
   \<not> (2025, 2, 28) < (2024 :: int, 12 :: int, 20 :: int) \<and>
   construct_event ref_env (iso_args [''2024-06-01'', ''09:00'', ''08:00'', ''standup''])
     = (Inr standup_event, [], [''standup'']) \<and>
   map_of standup_event ''dtstart''
     = Some (VDateTime (mk_datetime 2024 6 1 9 0) (Some ''Europe/Berlin'')) \<and>
   map_of standup_event ''dtend''
     = Some (VDateTime (mk_datetime 2024 6 2 8 0) (Some ''Europe/Berlin'')) \<and>
   \<not> dt_less (mk_datetime 2024 6 2 8 0) (mk_datetime 2024 6 1 9 0) \<and>
   \<not> aware_less (\<lambda>d. 120) (mk_datetime 2024 6 2 8 0) (mk_datetime 2024 6 1 9 0)"
proof -
  have run: "construct_event ref_env (de_args [''20.12.'', ''27.02.'', ''holiday''])
               = (Inr holiday_event, [], [''holiday''])"
    by code_simp
  have hs: "map_of holiday_event ''dtstart'' = Some (VDate (2024, 12, 20))"
    and he: "map_of holiday_event ''dtend'' = Some (VDate (2025, 2, 28))"
    by code_simp+
  from construct_event_end_not_before_start [OF run] hs he
  have d: "\<not> (2025, 2, 28) < (2024 :: int, 12 :: int, 20 :: int)" by auto
  have run2: "construct_event ref_env
                (iso_args [''2024-06-01'', ''09:00'', ''08:00'', ''standup''])
              = (Inr standup_event, [], [''standup''])"
    by code_simp
  have ss: "map_of standup_event ''dtstart''
              = Some (VDateTime (mk_datetime 2024 6 1 9 0) (Some ''Europe/Berlin''))"
    and se: "map_of standup_event ''dtend''
              = Some (VDateTime (mk_datetime 2024 6 2 8 0) (Some ''Europe/Berlin''))"
    by code_simp+
  from construct_event_end_not_before_start [OF run2] ss se
  have t: "\<not> dt_less (mk_datetime 2024 6 2 8 0) (mk_datetime 2024 6 1 9 0) \<and>
           (\<forall>utcoffset. utcoffset (mk_datetime 2024 6 2 8 0) = utcoffset (mk_datetime 2024 6 1 9 0)
              \<longrightarrow> \<not> aware_less utcoffset (mk_datetime 2024 6 2 8 0)
                       (mk_datetime 2024 6 1 9 0))"
    by auto
  then have "\<not> aware_less (\<lambda>d. 120) (mk_datetime 2024 6 2 8 0) (mk_datetime 2024 6 1 9 0)"
    by simp
  with run hs he d run2 ss se t show ?thesis by simp
qed

subsection \<open>The end of an event when no token is left\<close>

text \<open>
  When guessdatetimefstr raises ValueError for the end, the default length is used
  and nothing is reported.
\<close>

lemma resolve_end_default:
  assumes "guessdatetimefstr E l (locale_of a) dtstart = (Inl ValueError, l')"
  shows "resolve_end E a dtstart all_day l =
           (if all_day then add_days dtstart (defaultdatelen a - 1)
            else add_minutes dtstart (defaulttimelen a), l')"
  using assms by (simp add: resolve_end_def)

text \<open>
  Claim C2 says that the default also applies when no token is left after the start.
  The code does otherwise: on an empty list the two datetime grammars fail with
  ValueError (strptime rejects the empty string), then timefstr reads \<open>date_list[0]\<close>
  and raises IndexError, which neither guessdatetimefstr nor construct_event catches.
  No default end is computed and the call ends with IndexError.
\<close>

theorem resolve_end_no_tokens_IndexError:
  assumes "datetime_strptime E [] (datetimeformat a) = None"
    and "datetime_strptime E [] (longdatetimeformat a) = None"
  shows "resolve_end E a dtstart all_day [] = (Inl IndexError, [])"
  using assms
  by (simp add: resolve_end_def guessdatetimefstr_def grammars_def locale_of_def
      apply_grammar_def datefstr_year_def datetimefstr_def timefstr_day_def timefstr_def)

theorem resolve_end_no_tokens_IndexError_witness:
  "datetime_strptime ref_env [] (datetimeformat (de_args [''25.10.2013''])) = None \<and>
   datetime_strptime ref_env [] (longdatetimeformat (de_args [''25.10.2013''])) = None \<and>
   resolve_start ref_env (de_args [''25.10.2013''])
     = (Inr (mk_datetime 2013 10 25 0 0, True), [], []) \<and>
   resolve_end ref_env (de_args [''25.10.2013'']) (mk_datetime 2013 10 25 0 0) True []
     = (Inl IndexError, []) \<and>
   construct_event ref_env (de_args [''25.10.2013'']) = (Inl IndexError, [], [])"
proof -
  have f1: "datetime_strptime ref_env [] (datetimeformat (de_args [''25.10.2013''])) = None"
    by code_simp
  have f2: "datetime_strptime ref_env [] (longdatetimeformat (de_args [''25.10.2013''])) = None"
    by code_simp
  have s: "resolve_start ref_env (de_args [''25.10.2013''])
             = (Inr (mk_datetime 2013 10 25 0 0, True), [], [])"
    by code_simp
  have c: "construct_event ref_env (de_args [''25.10.2013'']) = (Inl IndexError, [], [])"
    by code_simp
  from resolve_end_no_tokens_IndexError [OF f1 f2] f1 f2 s c show ?thesis by simp
qed

subsection \<open>Summary and description\<close>

text \<open>
  \<open>split(sep, 1)\<close> cuts at the first occurrence of the separator and nowhere else: a
  text without the separator comes back whole, otherwise the first piece ends where
  the earliest occurrence begins.
\<close>

lemma split_once_spec:
  assumes "sep \<noteq> []"
  shows "(\<not> sublist sep s \<longrightarrow> split_once sep s = [s]) \<and>
         (sublist sep s \<longrightarrow>
            (\<exists>p q. s = p @ sep @ q \<and> split_once sep s = [p, q] \<and>
                   (\<forall>p' q'. s = p' @ sep @ q' \<longrightarrow> length p \<le> length p')))"
proof (induction s)
  case Nil
  from assms show ?case by simp
next
  case (Cons c cs)
  show ?case
  proof (cases "prefix sep (c # cs)")
    case True
    then obtain q where q: "c # cs = sep @ q" by (auto simp: prefix_def)
    from True have r: "split_once sep (c # cs) = [Nil, drop (length sep) (c # cs)]" by simp
    from q have dq: "drop (length sep) (c # cs) = q" by simp
    have "split_once sep (c # cs) = [Nil, q]" by (simp only: r dq)
    with q have "c # cs = [] @ sep @ q \<and> split_once sep (c # cs) = [Nil, q]" by simp
    moreover have "sublist sep (c # cs)" using True by (simp add: sublist_Cons_right)
    ultimately show ?thesis by fastforce
  next
    case False
    show ?thesis
    proof (cases "sublist sep cs")
      case no: False
      with False Cons have "split_once sep (c # cs) = [c # cs]" by simp
      moreover from no False have "\<not> sublist sep (c # cs)" by (simp add: sublist_Cons_right)
      ultimately show ?thesis by simp
    next
      case yes: True
      with Cons obtain p q where
        pq: "cs = p @ sep @ q" "split_once sep cs = [p, q]" and
        least: "\<forall>p' q'. cs = p' @ sep @ q' \<longrightarrow> length p \<le> length p'"
        by blast
      from False pq have res: "split_once sep (c # cs) = [c # p, q]" by simp
      have "length (c # p) \<le> length p'" if dec: "c # cs = p' @ sep @ q'" for p' q'
      proof (cases p')
        case Nil
        with dec have "prefix sep (c # cs)" by (simp add: prefix_def)
        with False show ?thesis by simp
      next
        case (Cons x xs)
        with dec have "cs = xs @ sep @ q'" by simp
        with least have "length p \<le> length xs" by blast
        with Cons show ?thesis by simp
      qed
      with pq res have
        "c # cs = (c # p) @ sep @ q \<and> split_once sep (c # cs) = [c # p, q] \<and>
         (\<forall>p' q'. c # cs = p' @ sep @ q' \<longrightarrow> length (c # p) \<le> length p')"
        by simp
      moreover from yes have "sublist sep (c # cs)" by (simp add: sublist_Cons_right)
      ultimately show ?thesis by blast
    qed
  qed
qed

text \<open>
  Claim C3 as stated fails: the guard of line 233 is \<open>not description or not
  location\<close>, so the text is split as soon as one of the two is missing. With a
  location and no description the text is still split, and with a description and no
  location a text that holds the delimiter is split as well.
\<close>

theorem split_text_one_argument_counterexample:
  "split_text ((de_args [])\<lparr>location := Some ''here''\<rparr>) ''foo :: bar''
     = (''foo'', Some ''bar'') \<and>
   construct_event ref_env
     ((de_args [''25.10.'', ''18:00'', ''20:00'', ''foo'', ''::'', ''bar''])
        \<lparr>location := Some ''here''\<rparr>)
     = (Inr located_event, [], [''foo'', ''::'', ''bar'']) \<and>
   split_text ((de_args [])\<lparr>description := Some ''given''\<rparr>) ''foo :: bar''
     = (''foo'', Some ''bar'') \<and>
   construct_event ref_env
     ((de_args [''25.10.'', ''18:00'', ''20:00'', ''foo'', ''::'', ''bar''])
        \<lparr>description := Some ''given''\<rparr>)
     = (Inr overwritten_event, [], [''foo'', ''::'', ''bar''])"
  by code_simp

text \<open>
  Claim C3, amended. The text is split on the delimiter, at its first occurrence
  only, exactly when a description or a location is missing: the summary is then
  the text before the first delimiter, or the whole text when there is none, and
  with no description supplied the description becomes the text after that first
  delimiter. When both were supplied the whole text is the summary. A supplied
  description is kept when both were supplied and when the text holds no delimiter.
\<close>

theorem split_text_guard:
  "(truthy (description a) \<and> truthy (location a)
      \<longrightarrow> split_text a body = (body, description a)) \<and>
   (\<not> (truthy (description a) \<and> truthy (location a)) \<and> \<not> sublist '' :: '' body
      \<longrightarrow> split_text a body = (body, description a)) \<and>
   (\<not> (truthy (description a) \<and> truthy (location a)) \<and> sublist '' :: '' body
      \<longrightarrow> (\<exists>p q. body = p @ '' :: '' @ q \<and>
                 (\<forall>p' q'. body = p' @ '' :: '' @ q' \<longrightarrow> length p \<le> length p') \<and>
                 fst (split_text a body) = p \<and>
                 (\<not> truthy (description a) \<longrightarrow> split_text a body = (p, Some q))))"
proof -
  have spec: "(\<not> sublist '' :: '' body \<longrightarrow> split_once '' :: '' body = [body]) \<and>
         (sublist '' :: '' body \<longrightarrow>
            (\<exists>p q. body = p @ '' :: '' @ q \<and> split_once '' :: '' body = [p, q] \<and>
                   (\<forall>p' q'. body = p' @ '' :: '' @ q' \<longrightarrow> length p \<le> length p')))"
    by (rule split_once_spec) simp
  have both: "truthy (description a) \<and> truthy (location a)
                \<longrightarrow> split_text a body = (body, description a)"
    by (simp add: split_text_def)
  have none: "\<not> (truthy (description a) \<and> truthy (location a)) \<and> \<not> sublist '' :: '' body
                \<longrightarrow> split_text a body = (body, description a)"
    using spec by (auto simp: split_text_def Let_def)
  have some: "\<not> (truthy (description a) \<and> truthy (location a)) \<and> sublist '' :: '' body
      \<longrightarrow> (\<exists>p q. body = p @ '' :: '' @ q \<and>
                 (\<forall>p' q'. body = p' @ '' :: '' @ q' \<longrightarrow> length p \<le> length p') \<and>
                 fst (split_text a body) = p \<and>
                 (\<not> truthy (description a) \<longrightarrow> split_text a body = (p, Some q)))"
  proof
    assume h: "\<not> (truthy (description a) \<and> truthy (location a)) \<and> sublist '' :: '' body"
    with spec obtain p q where
      pq: "body = p @ '' :: '' @ q" "split_once '' :: '' body = [p, q]" and
      least: "\<forall>p' q'. body = p' @ '' :: '' @ q' \<longrightarrow> length p \<le> length p'"
      by blast
    from h pq(2) have "split_text a body = (p, Some q)"
      by (auto simp: split_text_def Let_def)
    with pq(1) least show "\<exists>p q. body = p @ '' :: '' @ q \<and>
                 (\<forall>p' q'. body = p' @ '' :: '' @ q' \<longrightarrow> length p \<le> length p') \<and>
                 fst (split_text a body) = p \<and>
                 (\<not> truthy (description a) \<longrightarrow> split_text a body = (p, Some q))"
      by auto
  qed
  from both none some show ?thesis by blast
qed

theorem split_text_guard_witness:
  "split_text ((de_args [])\<lparr>description := Some ''given'', location := Some ''here''\<rparr>)
       ''foo :: bar'' = (''foo :: bar'', Some ''given'') \<and>
   split_text ((de_args [])\<lparr>description := Some ''given''\<rparr>) ''foo bar''
     = (''foo bar'', Some ''given'') \<and>
   split_text (de_args []) ''a :: b :: c'' = (''a'', Some ''b :: c'')"
proof -
  let ?both = "(de_args [])\<lparr>description := Some ''given'', location := Some ''here''\<rparr>"
  let ?one = "(de_args [])\<lparr>description := Some ''given''\<rparr>"
  have t: "truthy (description ?both) \<and> truthy (location ?both)" by code_simp
  have d: "description ?both = Some ''given''" by code_simp
  from split_text_guard [of ?both "''foo :: bar''"] t d
  have r1: "split_text ?both ''foo :: bar'' = (''foo :: bar'', Some ''given'')" by simp
  have n: "\<not> (truthy (description ?one) \<and> truthy (location ?one))" by code_simp
  have ns: "\<not> sublist '' :: '' ''foo bar''" by code_simp
  have d1: "description ?one = Some ''given''" by code_simp
  from split_text_guard [of ?one "''foo bar''"] n ns d1
  have r2: "split_text ?one ''foo bar'' = (''foo bar'', Some ''given'')" by simp
  have r3: "split_text (de_args []) ''a :: b :: c'' = (''a'', Some ''b :: c'')" by code_simp
  from r1 r2 r3 show ?thesis by simp
qed

subsection \<open>The repair of an all-day event\<close>

lemma leap_next_common: "is_leap y \<Longrightarrow> \<not> is_leap (y + 1)"
proof -
  assume "is_leap y"
  then have "y mod 4 = 0" by (simp add: is_leap_def)
  then have "(y + 1) mod 4 \<noteq> 0" by presburger
  then show ?thesis by (simp add: is_leap_def)
qed


text \<open>
  Claim C4 says that the repair steps always return a repaired pair. The code does
  otherwise for an all-day event of a leap year whose end is 28 February and whose
  start lies after 29 February of that year: line 204 moves the end to 29 February,
  it is before the start, and line 210 rebuilds it in the following year, which has
  no 29 February, so that the datetime constructor raises ValueError. In the leap
  year 2024 the tokens 20.12. 28.02. holiday are such an input; nothing is logged,
  the ValueError leaves construct_event.
\<close>

theorem repair_all_day_leap_day_ValueError:
  assumes leap: "is_leap y" and range: "1 \<le> y" "y < 9999"
    and start: "year dtstart = y" "(2, 29) < (month dtstart, day dtstart)"
    and "end": "valid_datetime dtend" "year dtend = y" "month dtend = 2" "day dtend = 28"
  shows "repair today True dtstart dtend = Inl ValueError"
proof -
  let ?e1 = "dtend\<lparr>year := y, month := 2, day := 29, hour := hour dtend,
                     minute := minute dtend\<rparr>"
  have dim: "days_in_month y 2 = 29" using leap by (simp add: days_in_month_def)
  have "next_day (y, 2, 28) = (y, 2, 29)" by (simp add: next_day_def dim)
  then have sh: "shift_days 1 (date_of dtend) = (y, 2, 29)"
    using "end" by (simp add: shift_days_one date_of_def)
  have a1: "add_days dtend 1 = Inr ?e1"
    using range by (simp add: add_days_def sh with_date_def)
  have lt: "dt_less ?e1 dtstart"
    using start by (auto simp: dt_less_def dt_key_def)
  have dim': "days_in_month (y + 1) 2 = 28"
    using leap_next_common [OF leap] by (simp add: days_in_month_def)
  have tt: "(year ?e1 + 1) # slice 1 6 (timetuple ?e1)
              = [y + 1, 2, 29, hour dtend, minute dtend, second dtend]"
    by (simp add: slice_def timetuple_def)
  have new: "datetime_new ((year ?e1 + 1) # slice 1 6 (timetuple ?e1)) = Inl ValueError"
    by (subst tt) (simp add: datetime_new_def dim')
  have "repair_all_day today dtstart dtend = Inl ValueError"
    using start(1) lt new by (simp add: repair_all_day_def bnd_def a1)
  then show ?thesis by (simp add: repair_def bnd_def)
qed

theorem repair_all_day_leap_day_ValueError_witness:
  "is_leap 2024 \<and>
   resolve_start ref_env (de_args [''20.12.'', ''28.02.'', ''holiday''])
     = (Inr (mk_datetime 2024 12 20 0 0, True), [], [''28.02.'', ''holiday'']) \<and>
   resolve_end ref_env (de_args [''20.12.'', ''28.02.'', ''holiday''])
       (mk_datetime 2024 12 20 0 0) True [''28.02.'', ''holiday'']
     = (Inr (mk_datetime 2024 2 28 0 0), [''holiday'']) \<and>
   repair (datetime_today ref_env) True (mk_datetime 2024 12 20 0 0)
       (mk_datetime 2024 2 28 0 0)
     = Inl ValueError \<and>
   construct_event ref_env (de_args [''20.12.'', ''28.02.'', ''holiday''])
     = (Inl ValueError, [], [''holiday''])"
proof -
  have leap: "is_leap 2024" by code_simp
  have s1: "year (mk_datetime 2024 12 20 0 0) = 2024" by code_simp
  have s2: "(2, 29) < (month (mk_datetime 2024 12 20 0 0), day (mk_datetime 2024 12 20 0 0))"
    by code_simp
  have e0: "valid_datetime (mk_datetime 2024 2 28 0 0)" by code_simp
  have e1: "year (mk_datetime 2024 2 28 0 0) = 2024" by code_simp
  have e2: "month (mk_datetime 2024 2 28 0 0) = 2" by code_simp
  have e3: "day (mk_datetime 2024 2 28 0 0) = 28" by code_simp
  have rp: "repair (datetime_today ref_env) True (mk_datetime 2024 12 20 0 0)
              (mk_datetime 2024 2 28 0 0) = Inl ValueError"
    by (rule repair_all_day_leap_day_ValueError [OF leap _ _ s1 s2 e0 e1 e2 e3]) simp_all
  have st: "resolve_start ref_env (de_args [''20.12.'', ''28.02.'', ''holiday''])
     = (Inr (mk_datetime 2024 12 20 0 0, True), [], [''28.02.'', ''holiday''])"
    by code_simp
  have en: "resolve_end ref_env (de_args [''20.12.'', ''28.02.'', ''holiday''])
       (mk_datetime 2024 12 20 0 0) True [''28.02.'', ''holiday'']
     = (Inr (mk_datetime 2024 2 28 0 0), [''holiday''])"
    by code_simp
  from st en rp have run:
    "construct_event ref_env (de_args [''20.12.'', ''28.02.'', ''holiday''])
       = (Inl ValueError, [], [''holiday''])"
    by (simp add: construct_event_def)
  from leap st en rp run show ?thesis by simp
qed

subsection \<open>The repair of a timed event\<close>

text \<open>
  Claim C5. For an event that is not all-day and whose resolved end is strictly before
  its start, the end first becomes the start's calendar date with the end's own hour
  and minute; if that is still strictly before the start, one day is added. With the
  tokens 2024-06-01 09:00 08:00 standup and ISO formats the start is 2024-06-01 09:00,
  the end is first resolved to 2024-06-01 08:00 and repaired to 2024-06-02 08:00.
\<close>

theorem repair_timed_two_steps:
  assumes "valid_datetime dtstart" and "valid_datetime dtend" and "dt_less dtend dtstart"
  shows "repair today False dtstart dtend =
           (let same_day = combine (date_of dtstart) (hour dtend, minute dtend, 0, 0)
            in if dt_less same_day dtstart then add_days same_day 1 else Inr same_day) \<and>
         resolve_start ref_env (iso_args [''2024-06-01'', ''09:00'', ''08:00'', ''standup''])
           = (Inr (mk_datetime 2024 6 1 9 0, False), [], [''08:00'', ''standup'']) \<and>
         resolve_end ref_env (iso_args [''2024-06-01'', ''09:00'', ''08:00'', ''standup''])
             (mk_datetime 2024 6 1 9 0) False [''08:00'', ''standup'']
           = (Inr (mk_datetime 2024 6 1 8 0), [''standup'']) \<and>
         repair (datetime_today ref_env) False (mk_datetime 2024 6 1 9 0)
             (mk_datetime 2024 6 1 8 0)
           = Inr (mk_datetime 2024 6 2 8 0) \<and>
         construct_event ref_env (iso_args [''2024-06-01'', ''09:00'', ''08:00'', ''standup''])
           = (Inr standup_event, [], [''standup''])"
proof -
  have new: "datetime_new (slice 0 3 (timetuple dtstart) @ slice 3 5 (timetuple dtend))
               = Inr (combine (date_of dtstart) (hour dtend, minute dtend, 0, 0))"
    using assms(1,2)
    by (simp add: datetime_new_def slice_def timetuple_def valid_datetime_def arg_or0_def
        combine_def date_of_def)
  have general: "repair today False dtstart dtend =
           (let same_day = combine (date_of dtstart) (hour dtend, minute dtend, 0, 0)
            in if dt_less same_day dtstart then add_days same_day 1 else Inr same_day)"
    using assms(3) by (simp add: repair_def repair_order_def bnd_def new)
  have s: "resolve_start ref_env (iso_args [''2024-06-01'', ''09:00'', ''08:00'', ''standup''])
           = (Inr (mk_datetime 2024 6 1 9 0, False), [], [''08:00'', ''standup''])"
    by code_simp
  have e: "resolve_end ref_env (iso_args [''2024-06-01'', ''09:00'', ''08:00'', ''standup''])
             (mk_datetime 2024 6 1 9 0) False [''08:00'', ''standup'']
           = (Inr (mk_datetime 2024 6 1 8 0), [''standup''])"
    by code_simp
  have r: "repair (datetime_today ref_env) False (mk_datetime 2024 6 1 9 0)
             (mk_datetime 2024 6 1 8 0) = Inr (mk_datetime 2024 6 2 8 0)"
    by code_simp
  have c: "construct_event ref_env
             (iso_args [''2024-06-01'', ''09:00'', ''08:00'', ''standup''])
           = (Inr standup_event, [], [''standup''])"
    by code_simp
  from general s e r c show ?thesis by blast
qed

theorem repair_timed_two_steps_witness:
  "valid_datetime (mk_datetime 2024 6 1 9 0) \<and> valid_datetime (mk_datetime 2024 6 1 8 0) \<and>
   dt_less (mk_datetime 2024 6 1 8 0) (mk_datetime 2024 6 1 9 0) \<and>
   repair (mk_datetime 2024 5 20 8 15) False (mk_datetime 2024 6 1 9 0)
       (mk_datetime 2024 6 1 8 0)
     = add_days (mk_datetime 2024 6 1 8 0) 1 \<and>
   add_days (mk_datetime 2024 6 1 8 0) 1 = Inr (mk_datetime 2024 6 2 8 0)"
proof -
  have v1: "valid_datetime (mk_datetime 2024 6 1 9 0)" by code_simp
  have v2: "valid_datetime (mk_datetime 2024 6 1 8 0)" by code_simp
  have lt: "dt_less (mk_datetime 2024 6 1 8 0) (mk_datetime 2024 6 1 9 0)" by code_simp
  have same: "combine (date_of (mk_datetime 2024 6 1 9 0))
                (hour (mk_datetime 2024 6 1 8 0), minute (mk_datetime 2024 6 1 8 0), 0, 0)
              = mk_datetime 2024 6 1 8 0"
    by code_simp
  have add: "add_days (mk_datetime 2024 6 1 8 0) 1 = Inr (mk_datetime 2024 6 2 8 0)"
    by code_simp
  from repair_timed_two_steps [OF v1 v2 lt, of "mk_datetime 2024 5 20 8 15"]
  have "repair (mk_datetime 2024 5 20 8 15) False (mk_datetime 2024 6 1 9 0)
          (mk_datetime 2024 6 1 8 0) = add_days (mk_datetime 2024 6 1 8 0) 1"
    by (simp add: same lt Let_def)
  with v1 v2 lt add show ?thesis by simp
qed

subsection \<open>Tokens consumed by the parsers\<close>

lemma pop_times_eq:
  "pop_times n l = (if n \<le> length l then Inr () else Inl IndexError, drop n l)"
  by (induction n l rule: pop_times.induct) auto

text \<open>
  The two matchers consume only on success: datetimefstr removes one token more
  than its format has spaces, timefstr removes one token, and a ValueError of either
  leaves the list as it was.
\<close>

lemma datetimefstr_consumes:
  assumes "datetimefstr E l dtformat = (r, l')"
  shows "(\<exists>d. r = Inr d) \<longrightarrow> l' = drop (count_list dtformat (CHR '' '') + 1) l"
    and "r = Inl ValueError \<longrightarrow> l' = l"
  using assms
  by (auto simp: datetimefstr_def pop_times_eq Let_def split: option.splits if_splits)

lemma timefstr_consumes:
  assumes "timefstr E l tf = (r, l')"
  shows "(\<exists>d. r = Inr d) \<longrightarrow> l' = drop 1 l"
    and "(\<exists>e. r = Inl e) \<longrightarrow> l' = l"
  using assms
  by (auto simp: timefstr_def split: list.splits option.splits sum.splits)

text \<open>
  The loop of guessdatetimefstr inherits this as long as the year overwrite of
  datefstr_year cannot fail on what the two short formats parse (a short format
  without a year parses into 1900, whose dates exist in every year): a ValueError of
  the call then leaves the list unchanged, and a successful call has removed exactly
  the tokens of the grammar that returned.
\<close>

lemma apply_grammar_consumes:
  assumes "apply_grammar E dd g l fmt = (Inr d, l')"
  shows "l' = drop (if g = TimefstrDay \<or> g = Timefstr then 1
                    else count_list fmt (CHR '' '') + 1) l"
  using assms
  by (cases g)
     (auto simp: apply_grammar_def datefstr_year_def timefstr_day_def datetimefstr_def
        timefstr_def pop_times_eq Let_def
        split: prod.splits sum.splits option.splits if_splits list.splits)

lemma timefstr_day_no_ValueError_after_pop:
  assumes "valid_datetime dd" and "dtime_new xs = Inr tm"
  shows "\<exists>d. datetime_new (slice 0 3 (timetuple dd) @ slice 3 5 (timetuple (combine dt tm)))
           = Inr d"
  using assms
  by (cases dt; cases tm)
     (auto simp: valid_datetime_def dtime_new_def datetime_new_def slice_def timetuple_def
        combine_def arg_or0_def Let_def split: if_splits)

lemma apply_grammar_ValueError:
  assumes "valid_datetime dd" and "apply_grammar E dd g l fmt = (Inl ValueError, l')"
  shows "l' = l \<or>
         (g = DatefstrYear \<and>
          (\<exists>d. datetimefstr E l fmt = (Inr d, l') \<and>
               datetime_new (slice 0 1 (timetuple dd) @ slice 1 5 (timetuple d))
                 = Inl ValueError))"
proof (cases g)
  case DatefstrYear
  with assms(2) show ?thesis
    using datetimefstr_consumes(2) [of E l fmt "Inl ValueError" l']
    by (auto simp: apply_grammar_def datefstr_year_def split: prod.splits sum.splits)
next
  case Datetimefstr
  with assms(2) show ?thesis
    by (auto simp: apply_grammar_def datetimefstr_def pop_times_eq Let_def
        split: option.splits if_splits)
next
  case TimefstrDay
  with assms(2) have run: "timefstr_day E dd l fmt = (Inl ValueError, l')"
    by (simp add: apply_grammar_def)
  obtain r1 l1 where tf: "timefstr E l fmt = (r1, l1)" by (cases "timefstr E l fmt")
  show ?thesis
  proof (cases r1)
    case (Inl e)
    with tf run have "l1 = l'" by (simp add: timefstr_day_def)
    moreover from timefstr_consumes(2) [OF tf] Inl have "l1 = l" by simp
    ultimately show ?thesis by simp
  next
    case (Inr dt)
    with tf obtain xs tm where "dtime_new xs = Inr tm" and "dt = combine (date_today E) tm"
      by (auto simp: timefstr_def split: list.splits option.splits sum.splits)
    with timefstr_day_no_ValueError_after_pop [OF assms(1), of xs tm "date_today E"]
    obtain d where "datetime_new (slice 0 3 (timetuple dd) @ slice 3 5 (timetuple dt)) = Inr d"
      by auto
    with tf Inr run show ?thesis by (simp add: timefstr_day_def)
  qed
next
  case Timefstr
  with assms(2) show ?thesis
    by (auto simp: apply_grammar_def timefstr_def
        split: sum.splits option.splits list.splits)
qed


lemma try_grammars_tokens:
  assumes dd: "valid_datetime dd"
    and safe: "\<And>g fmt ad d l'. (g, fmt, ad) \<in> set gs \<Longrightarrow> g = DatefstrYear \<Longrightarrow>
                   datetimefstr E l fmt = (Inr d, l') \<Longrightarrow>
                   datetime_new (slice 0 1 (timetuple dd) @ slice 1 5 (timetuple d))
                     \<noteq> Inl ValueError"
    and run: "try_grammars E dd gs l = (r, l')"
  shows "(r = Inl ValueError \<longrightarrow> l' = l) \<and>
         (\<forall>d all_day. r = Inr (d, all_day) \<longrightarrow>
            (\<exists>g fmt. (g, fmt, all_day) \<in> set gs \<and>
               apply_grammar E dd g l fmt = (Inr d, l')))"
  using safe run
proof (induction gs)
  case Nil
  then show ?case by auto
next
  case (Cons x gs)
  obtain g fmt ad where x: "x = (g, fmt, ad)" by (cases x)
  obtain r1 l1 where ap: "apply_grammar E dd g l fmt = (r1, l1)"
    by (cases "apply_grammar E dd g l fmt")
  show ?case
  proof (cases r1)
    case (Inr d)
    with Cons.prems(2) x ap show ?thesis by auto
  next
    case (Inl e)
    show ?thesis
    proof (cases "e = ValueError")
      case False
      with Inl Cons.prems(2) x ap show ?thesis by auto
    next
      case True
      with Inl ap have "apply_grammar E dd g l fmt = (Inl ValueError, l1)" by simp
      from apply_grammar_ValueError [OF dd this] Cons.prems(1) [of g fmt ad] x
      have same: "l1 = l" by auto
      from True Inl Cons.prems(2) x ap same
      have rest: "try_grammars E dd gs l = (r, l')" by simp
      have safe': "datetime_new (slice 0 1 (timetuple dd) @ slice 1 5 (timetuple d))
                     \<noteq> Inl ValueError"
        if "(g, fmt, ad) \<in> set gs" and "g = DatefstrYear"
          and "datetimefstr E l fmt = (Inr d, l')" for g fmt ad d l'
        using that Cons.prems(1) [of g fmt ad d l'] by simp
      have "(r = Inl ValueError \<longrightarrow> l' = l) \<and>
         (\<forall>d all_day. r = Inr (d, all_day) \<longrightarrow>
            (\<exists>g fmt. (g, fmt, all_day) \<in> set gs \<and>
               apply_grammar E dd g l fmt = (Inr d, l')))"
        using safe' rest by (rule Cons.IH)
      then show ?thesis by (simp only: list.set set_simps insert_iff) blast
    qed
  qed
qed

lemma grammars_cases:
  assumes "(g, fmt, ad) \<in> set (grammars loc)"
  shows "(g = DatefstrYear \<and> fmt = datetimeformat loc) \<or>
         (g = Datetimefstr \<and> fmt = longdatetimeformat loc) \<or>
         (g = TimefstrDay \<and> fmt = timeformat loc) \<or>
         (g = DatefstrYear \<and> fmt = dateformat loc) \<or>
         (g = Datetimefstr \<and> fmt = longdateformat loc)"
  using assms by (simp add: grammars_def) blast

lemma guessdatetimefstr_tokens:
  assumes dd: "valid_datetime dd"
    and safe: "\<And>fmt d l'. fmt = datetimeformat loc \<or> fmt = dateformat loc \<Longrightarrow>
                 datetimefstr E l fmt = (Inr d, l') \<Longrightarrow>
                 datetime_new (slice 0 1 (timetuple dd) @ slice 1 5 (timetuple d))
                   \<noteq> Inl ValueError"
    and run: "guessdatetimefstr E l loc dd = (r, l')"
  shows "(r = Inl ValueError \<longrightarrow> l' = l) \<and>
         (\<forall>d all_day. r = Inr (d, all_day) \<longrightarrow>
            (\<exists>g fmt. (g, fmt, all_day) \<in> set (grammars loc) \<and>
               apply_grammar E dd g l fmt = (Inr d, l') \<and>
               l' = drop (if g = TimefstrDay then 1 else count_list fmt (CHR '' '') + 1) l))"
proof -
  have safe': "datetime_new (slice 0 1 (timetuple dd) @ slice 1 5 (timetuple d))
                 \<noteq> Inl ValueError"
    if "(g, fmt, ad) \<in> set (grammars loc)" and "g = DatefstrYear"
      and "datetimefstr E l fmt = (Inr d, l')" for g fmt ad d l'
  proof -
    from grammars_cases [OF that(1)] that(2)
    have "fmt = datetimeformat loc \<or> fmt = dateformat loc" by auto
    then show ?thesis using that(3) by (rule safe)
  qed
  from run have "try_grammars E dd (grammars loc) l = (r, l')"
    by (simp add: guessdatetimefstr_def)
  with dd safe' have
    main: "(r = Inl ValueError \<longrightarrow> l' = l) \<and>
         (\<forall>d all_day. r = Inr (d, all_day) \<longrightarrow>
            (\<exists>g fmt. (g, fmt, all_day) \<in> set (grammars loc) \<and>
               apply_grammar E dd g l fmt = (Inr d, l')))"
    by (rule try_grammars_tokens)
  have cons: "l' = drop (if g = TimefstrDay then 1 else count_list fmt (CHR '' '') + 1) l"
    if "(g, fmt, ad) \<in> set (grammars loc)" and "apply_grammar E dd g l fmt = (Inr d, l')"
    for g fmt ad d
  proof -
    from grammars_cases [OF that(1)] have "g \<noteq> Timefstr" by auto
    with apply_grammar_consumes [OF that(2)] show ?thesis by simp
  qed
  show ?thesis
  proof (intro conjI allI impI)
    assume "r = Inl ValueError"
    with main show "l' = l" by simp
  next
    fix d all_day
    assume "r = Inr (d, all_day)"
    with main obtain g fmt where
      g: "(g, fmt, all_day) \<in> set (grammars loc)" "apply_grammar E dd g l fmt = (Inr d, l')"
      by blast
    from g cons [OF g] show "\<exists>g fmt. (g, fmt, all_day) \<in> set (grammars loc) \<and>
               apply_grammar E dd g l fmt = (Inr d, l') \<and>
               l' = drop (if g = TimefstrDay then 1 else count_list fmt (CHR '' '') + 1) l"
      by blast
  qed
qed

text \<open>
  Claim C6 says that a failing call of guessdatetimefstr leaves the token list
  unchanged and that a successful call removes exactly the tokens of the grammar that
  matched, without that proviso. The code does otherwise when a year-inferring
  grammar parses 29 February of a leap year and the reference day lies in a common
  year: datetimefstr has removed the tokens when datefstr_year fails to rebuild the
  date, and its ValueError makes the loop go on with the shortened list. With a format that
  carries the year and a reference day in 2023, the tokens 2024-02-29 10:00 are lost
  when the call fails, and three tokens are gone when the time grammar then matches
  11:30.
\<close>

theorem guessdatetimefstr_tokens_lost:
  assumes parse: "datetime_strptime E (str_join '' '' (take k l)) fmt = Some d"
    and k: "k = count_list fmt (CHR '' '') + 1" "k \<le> length l"
    and feb: "month d = 2" "day d = 29"
    and common: "\<not> is_leap (year dd)"
  shows "datefstr_year E dd l fmt = (Inl ValueError, drop k l) \<and>
         guessdatetimefstr ref_env [''2024-02-29'', ''10:00'', ''x''] iso_year_formats
             (mk_datetime 2023 12 30 9 0)
           = (Inl ValueError, [''x'']) \<and>
         guessdatetimefstr ref_env [''2024-02-29'', ''10:00'', ''11:30'', ''x'']
             iso_year_formats (mk_datetime 2023 12 30 9 0)
           = (Inr (mk_datetime 2023 12 30 11 30, False), [''x''])"
proof -
  have dt: "datetimefstr E l fmt = (Inr d, drop k l)"
    using parse k by (simp add: datetimefstr_def pop_times_eq Let_def)
  have args: "slice 0 1 (timetuple dd) @ slice 1 5 (timetuple d)
                = [year dd, 2, 29, hour d, minute d]"
    using feb by (simp add: slice_def timetuple_def)
  have dim: "days_in_month (year dd) 2 = 28"
    using common by (simp add: days_in_month_def)
  have new: "datetime_new (slice 0 1 (timetuple dd) @ slice 1 5 (timetuple d))
               = Inl ValueError"
    by (subst args) (simp add: datetime_new_def dim)
  have general: "datefstr_year E dd l fmt = (Inl ValueError, drop k l)"
    using new by (simp add: datefstr_year_def dt)
  have fails: "guessdatetimefstr ref_env [''2024-02-29'', ''10:00'', ''x''] iso_year_formats
             (mk_datetime 2023 12 30 9 0)
           = (Inl ValueError, [''x''])"
    by code_simp
  have returns: "guessdatetimefstr ref_env [''2024-02-29'', ''10:00'', ''11:30'', ''x'']
             iso_year_formats (mk_datetime 2023 12 30 9 0)
           = (Inr (mk_datetime 2023 12 30 11 30, False), [''x''])"
    by code_simp
  from general fails returns show ?thesis by simp
qed

theorem guessdatetimefstr_tokens_lost_witness:
  "datetime_strptime ref_env (str_join '' '' (take 2 [''2024-02-29'', ''10:00'', ''x'']))
       ''%Y-%m-%d %H:%M''
     = Some (mk_datetime 2024 2 29 10 0) \<and>
   \<not> is_leap (year (mk_datetime 2023 12 30 9 0)) \<and>
   datefstr_year ref_env (mk_datetime 2023 12 30 9 0) [''2024-02-29'', ''10:00'', ''x'']
       ''%Y-%m-%d %H:%M''
     = (Inl ValueError, [''x'']) \<and>
   snd (guessdatetimefstr ref_env [''2024-02-29'', ''10:00'', ''x''] iso_year_formats
          (mk_datetime 2023 12 30 9 0))
     \<noteq> [''2024-02-29'', ''10:00'', ''x'']"
proof -
  let ?l = "[''2024-02-29'', ''10:00'', ''x'']"
  have parse: "datetime_strptime ref_env (str_join '' '' (take 2 ?l)) ''%Y-%m-%d %H:%M''
                 = Some (mk_datetime 2024 2 29 10 0)"
    by code_simp
  have k1: "(2 :: nat) = count_list ''%Y-%m-%d %H:%M'' (CHR '' '') + 1" by code_simp
  have k2: "(2 :: nat) \<le> length ?l" by simp
  have m: "month (mk_datetime 2024 2 29 10 0) = 2" by code_simp
  have d: "day (mk_datetime 2024 2 29 10 0) = 29" by code_simp
  have c: "\<not> is_leap (year (mk_datetime 2023 12 30 9 0))" by code_simp
  from guessdatetimefstr_tokens_lost [OF parse k1 k2 m d c]
  have "datefstr_year ref_env (mk_datetime 2023 12 30 9 0) ?l ''%Y-%m-%d %H:%M''
          = (Inl ValueError, [''x'']) \<and>
        snd (guessdatetimefstr ref_env ?l iso_year_formats (mk_datetime 2023 12 30 9 0))
          \<noteq> ?l"
    by simp
  with parse c show ?thesis by simp
qed

subsection \<open>The timezone token\<close>

lemma str_join_head: "\<exists>r. str_join sep (tok # rest) = tok @ r"
  by (cases rest) auto

text \<open>
  A token at the head of the text is still at the head of the summary, unless the
  text is split and its first delimiter begins inside the token.
\<close>

lemma summary_keeps_head:
  assumes pre: "prefix tok body"
  shows "prefix tok (fst (split_text a body)) \<longleftrightarrow>
         \<not> (\<not> (truthy (description a) \<and> truthy (location a)) \<and>
            (\<exists>p q. body = p @ '' :: '' @ q \<and> length p < length tok))"
proof (cases "truthy (description a) \<and> truthy (location a)")
  case True
  then have "split_text a body = (body, description a)" by (simp add: split_text_def)
  with pre True show ?thesis by simp
next
  case guard: False
  have spec: "(\<not> sublist '' :: '' body \<longrightarrow> split_once '' :: '' body = [body]) \<and>
         (sublist '' :: '' body \<longrightarrow>
            (\<exists>p q. body = p @ '' :: '' @ q \<and> split_once '' :: '' body = [p, q] \<and>
                   (\<forall>p' q'. body = p' @ '' :: '' @ q' \<longrightarrow> length p \<le> length p')))"
    by (rule split_once_spec) simp
  show ?thesis
  proof (cases "sublist '' :: '' body")
    case False
    with spec guard have "fst (split_text a body) = body"
      by (auto simp: split_text_def Let_def)
    moreover have "\<not> (\<exists>p q. body = p @ '' :: '' @ q \<and> length p < length tok)"
      using False by (auto simp: sublist_def)
    ultimately show ?thesis using pre by simp
  next
    case True
    with spec obtain p q where
      pq: "body = p @ '' :: '' @ q" "split_once '' :: '' body = [p, q]" and
      least: "\<forall>p' q'. body = p' @ '' :: '' @ q' \<longrightarrow> length p \<le> length p'"
      by blast
    from guard pq(2) have sm: "fst (split_text a body) = p"
      by (auto simp: split_text_def Let_def)
    have pp: "prefix p body" using pq(1) by simp
    have heads: "prefix tok p \<longleftrightarrow> length tok \<le> length p"
      using prefix_length_prefix [OF pre pp] prefix_length_le [of tok p] by blast
    have cut: "(\<exists>p' q'. body = p' @ '' :: '' @ q' \<and> length p' < length tok)
                 \<longleftrightarrow> length p < length tok"
    proof
      assume "\<exists>p' q'. body = p' @ '' :: '' @ q' \<and> length p' < length tok"
      then obtain p' q' where "body = p' @ '' :: '' @ q'" and "length p' < length tok"
        by blast
      with least have "length p \<le> length p'" by blast
      with \<open>length p' < length tok\<close> show "length p < length tok" by simp
    next
      assume "length p < length tok"
      with pq(1) show "\<exists>p' q'. body = p' @ '' :: '' @ q' \<and> length p' < length tok"
        by blast
    qed
    from guard heads cut show ?thesis by (auto simp: sm)
  qed
qed

text \<open>
  What the timezone step leaves in an event that is built: the two localized values,
  the token list, and the summary cut from the decoded text.
\<close>

lemma timezone_token_run:
  assumes run: "construct_event E a = (Inr ev, log, lf)"
    and st: "resolve_start E a = (Inr (s, False), log0, l0)"
    and en: "resolve_end E a s False l0 = (Inr e, tok # rest)"
    and rp: "repair (datetime_today E) False s e = Inr e'"
  shows "(\<forall>tz. pytz_timezone E tok = Inr tz \<longrightarrow>
            map_of ev ''dtstart'' = Some (localize tz s) \<and>
            map_of ev ''dtend'' = Some (localize tz e') \<and> lf = rest) \<and>
         (pytz_timezone E tok = Inl UnknownTimeZoneError \<or>
          pytz_timezone E tok = Inl UnicodeDecodeError \<longrightarrow>
            map_of ev ''dtstart'' = Some (localize (default_timezone a) s) \<and>
            map_of ev ''dtend'' = Some (localize (default_timezone a) e') \<and>
            lf = tok # rest \<and>
            (\<exists>body. to_unicode E (str_join '' '' (tok # rest)) (encoding a) = Inr body \<and>
                    map_of ev ''summary'' = Some (VText (fst (split_text a body)))))"
proof -
  from construct_event_phases [OF run] st en rp obtain vs ve body log' where
    loc: "localize_step E a False s e' (tok # rest) = (Inr (vs, ve), lf)" and
    dec: "to_unicode E (str_join '' '' lf) (encoding a) = Inr body" and
    bld: "build_event E a vs ve body = (Inr ev, log')"
    by auto
  from build_event_window [OF bld] have
    win: "map_of ev ''dtstart'' = Some vs" "map_of ev ''dtend'' = Some ve" by auto
  have sm: "map_of ev ''summary'' = Some (VText (fst (split_text a body)))"
    using bld by (rule build_event_summary)
  have known: "\<forall>tz. pytz_timezone E tok = Inr tz \<longrightarrow>
            map_of ev ''dtstart'' = Some (localize tz s) \<and>
            map_of ev ''dtend'' = Some (localize tz e') \<and> lf = rest"
    using loc win by (auto simp: localize_step_def)
  have unknown: "pytz_timezone E tok = Inl UnknownTimeZoneError \<or>
          pytz_timezone E tok = Inl UnicodeDecodeError \<longrightarrow>
            map_of ev ''dtstart'' = Some (localize (default_timezone a) s) \<and>
            map_of ev ''dtend'' = Some (localize (default_timezone a) e') \<and>
            lf = tok # rest \<and>
            (\<exists>body. to_unicode E (str_join '' '' (tok # rest)) (encoding a) = Inr body \<and>
                    map_of ev ''summary'' = Some (VText (fst (split_text a body))))"
  proof
    assume tzf: "pytz_timezone E tok = Inl UnknownTimeZoneError \<or>
                 pytz_timezone E tok = Inl UnicodeDecodeError"
    with loc have vals: "vs = localize (default_timezone a) s"
      "ve = localize (default_timezone a) e'" and lf: "lf = tok # rest"
      by (auto simp: localize_step_def)
    from dec lf have "to_unicode E (str_join '' '' (tok # rest)) (encoding a) = Inr body"
      by simp
    with vals lf win sm show
      "map_of ev ''dtstart'' = Some (localize (default_timezone a) s) \<and>
       map_of ev ''dtend'' = Some (localize (default_timezone a) e') \<and>
       lf = tok # rest \<and>
       (\<exists>body. to_unicode E (str_join '' '' (tok # rest)) (encoding a) = Inr body \<and>
               map_of ev ''summary'' = Some (VText (fst (split_text a body))))"
      by blast
  qed
  from known unknown show ?thesis by blast
qed

text \<open>
  Two unknown tokens that stay whole in the summary: \<open>a b\<close>, which holds a space,
  and \<open>a :: b\<close> when description and location are both supplied and nothing is
  split.
\<close>

lemma unknown_token_kept_examples:
  "construct_event ref_env (iso_args [''09:00'', ''10:00'', ''a b'', ''c''])
     = (Inr spaced_event, [], [''a b'', ''c''])"
  "map_of spaced_event ''summary'' = Some (VText ''a b c'')"
  "construct_event ref_env
     ((iso_args [''09:00'', ''10:00'', ''a :: b'', ''c''])
        \<lparr>description := Some ''given'', location := Some ''here''\<rparr>)
     = (Inr whole_event, [], [''a :: b'', ''c''])"
  "map_of whole_event ''summary'' = Some (VText ''a :: b c'')"
  by code_simp+

text \<open>
  Claim C7 as stated fails in its last part: a token that is no timezone name stays
  in the list, but the summary is only the text before the first delimiter. The
  token \<open>a :: b\<close> is looked up, found unknown and left in place; the summary is
  \<open>a\<close>, which does not contain the token.
\<close>

theorem timezone_token_cut_counterexample:
  "pytz_timezone ref_env ''a :: b'' = Inl UnknownTimeZoneError \<and>
   construct_event ref_env (iso_args [''09:00'', ''10:00'', ''a :: b'', ''c''])
     = (Inr cut_event, [], [''a :: b'', ''c'']) \<and>
   map_of cut_event ''summary'' = Some (VText ''a'') \<and>
   \<not> sublist ''a :: b'' ''a''"
  by code_simp

text \<open>
  Claim C7, amended. For an event that is not all-day, with at least one token left
  after the end is resolved: if the next token names a known timezone, start and
  end are localized to it and the token is consumed; if the lookup raises
  UnknownTimeZoneError or UnicodeDecodeError, start and end are localized to the
  default timezone and the token stays at the head of the list, so that the joined
  text starts with it. The summary is cut from the decoded text, and a token that
  heads that text heads the summary as well, except in one case: the text is split
  (a description or a location is missing) and its first delimiter begins inside
  the token.
\<close>

theorem timezone_token:
  assumes st: "resolve_start E a = (Inr (s, False), log0, l0)"
    and en: "resolve_end E a s False l0 = (Inr e, tok # rest)"
    and rp: "repair (datetime_today E) False s e = Inr e'"
  shows "(\<forall>tz. pytz_timezone E tok = Inr tz \<longrightarrow>
            localize_step E a False s e' (tok # rest)
              = (Inr (localize tz s, localize tz e'), rest) \<and>
            (\<forall>ev log lf. construct_event E a = (Inr ev, log, lf) \<longrightarrow>
               map_of ev ''dtstart'' = Some (localize tz s) \<and>
               map_of ev ''dtend'' = Some (localize tz e') \<and> lf = rest)) \<and>
         (pytz_timezone E tok = Inl UnknownTimeZoneError \<or>
          pytz_timezone E tok = Inl UnicodeDecodeError \<longrightarrow>
            localize_step E a False s e' (tok # rest)
              = (Inr (localize (default_timezone a) s, localize (default_timezone a) e'),
                 tok # rest) \<and>
            prefix tok (str_join '' '' (tok # rest)) \<and>
            (\<forall>ev log lf. construct_event E a = (Inr ev, log, lf) \<longrightarrow>
               map_of ev ''dtstart'' = Some (localize (default_timezone a) s) \<and>
               map_of ev ''dtend'' = Some (localize (default_timezone a) e') \<and>
               lf = tok # rest \<and>
               (\<exists>body summary.
                  to_unicode E (str_join '' '' (tok # rest)) (encoding a) = Inr body \<and>
                  map_of ev ''summary'' = Some (VText summary) \<and>
                  (prefix tok body \<longrightarrow>
                     (prefix tok summary \<longleftrightarrow>
                        \<not> (\<not> (truthy (description a) \<and> truthy (location a)) \<and>
                           (\<exists>p q. body = p @ '' :: '' @ q \<and>
                                  length p < length tok)))))))"
proof (intro conjI allI impI)
  fix tz
  assume "pytz_timezone E tok = Inr tz"
  then show "localize_step E a False s e' (tok # rest)
               = (Inr (localize tz s, localize tz e'), rest)"
    by (simp add: localize_step_def)
next
  fix tz ev log lf
  assume tz: "pytz_timezone E tok = Inr tz"
    and run: "construct_event E a = (Inr ev, log, lf)"
  from timezone_token_run [OF run st en rp] tz
  show "map_of ev ''dtstart'' = Some (localize tz s)"
    and "map_of ev ''dtend'' = Some (localize tz e')" and "lf = rest"
    by simp_all
next
  assume "pytz_timezone E tok = Inl UnknownTimeZoneError \<or>
          pytz_timezone E tok = Inl UnicodeDecodeError"
  then show "localize_step E a False s e' (tok # rest)
               = (Inr (localize (default_timezone a) s, localize (default_timezone a) e'),
                  tok # rest)"
    by (auto simp: localize_step_def)
next
  show "prefix tok (str_join '' '' (tok # rest))"
    using str_join_head [of "'' ''" tok rest] by auto
next
  fix ev log lf
  assume tzf: "pytz_timezone E tok = Inl UnknownTimeZoneError \<or>
               pytz_timezone E tok = Inl UnicodeDecodeError"
    and run: "construct_event E a = (Inr ev, log, lf)"
  from timezone_token_run [OF run st en rp] tzf
  obtain body where
    vals: "map_of ev ''dtstart'' = Some (localize (default_timezone a) s)"
      "map_of ev ''dtend'' = Some (localize (default_timezone a) e')"
      "lf = tok # rest" and
    dec: "to_unicode E (str_join '' '' (tok # rest)) (encoding a) = Inr body" and
    sm: "map_of ev ''summary'' = Some (VText (fst (split_text a body)))"
    by blast
  from vals show "map_of ev ''dtstart'' = Some (localize (default_timezone a) s)"
    and "map_of ev ''dtend'' = Some (localize (default_timezone a) e')"
    and "lf = tok # rest"
    by simp_all
  have "prefix tok body \<longrightarrow>
          (prefix tok (fst (split_text a body)) \<longleftrightarrow>
             \<not> (\<not> (truthy (description a) \<and> truthy (location a)) \<and>
                (\<exists>p q. body = p @ '' :: '' @ q \<and> length p < length tok)))"
    using summary_keeps_head [of tok body a] by blast
  with dec sm show "\<exists>body summary.
                  to_unicode E (str_join '' '' (tok # rest)) (encoding a) = Inr body \<and>
                  map_of ev ''summary'' = Some (VText summary) \<and>
                  (prefix tok body \<longrightarrow>
                     (prefix tok summary \<longleftrightarrow>
                        \<not> (\<not> (truthy (description a) \<and> truthy (location a)) \<and>
                           (\<exists>p q. body = p @ '' :: '' @ q \<and>
                                  length p < length tok))))"
    by blast
qed

theorem timezone_token_witness:
  "construct_event ref_env (iso_args [''09:00'', ''10:00'', ''Mars'', ''trip''])
     = (Inr mars_event, [], [''Mars'', ''trip'']) \<and>
   pytz_timezone ref_env ''Mars'' = Inl UnknownTimeZoneError \<and>
   map_of mars_event ''dtstart''
     = Some (localize ''Europe/Berlin'' (mk_datetime 2024 5 20 9 0)) \<and>
   map_of mars_event ''dtend''
     = Some (localize ''Europe/Berlin'' (mk_datetime 2024 5 20 10 0)) \<and>
   map_of mars_event ''summary'' = Some (VText ''Mars trip'') \<and>
   prefix ''Mars'' ''Mars trip'' \<and>
   construct_event ref_env (iso_args [''09:00'', ''10:00'', ''UTC'', ''trip''])
     = (Inr utc_event, [], [''trip'']) \<and>
   pytz_timezone ref_env ''UTC'' = Inr ''UTC'' \<and>
   map_of utc_event ''dtstart'' = Some (localize ''UTC'' (mk_datetime 2024 5 20 9 0)) \<and>
   map_of utc_event ''dtend'' = Some (localize ''UTC'' (mk_datetime 2024 5 20 10 0))"
proof -
  let ?a = "iso_args [''09:00'', ''10:00'', ''Mars'', ''trip'']"
  let ?b = "iso_args [''09:00'', ''10:00'', ''UTC'', ''trip'']"
  let ?s = "mk_datetime 2024 5 20 9 0"
  let ?e = "mk_datetime 2024 5 20 10 0"
  have run: "construct_event ref_env ?a = (Inr mars_event, [], [''Mars'', ''trip''])"
    by code_simp
  have st: "resolve_start ref_env ?a = (Inr (?s, False), [], [''10:00'', ''Mars'', ''trip''])"
    by code_simp
  have en: "resolve_end ref_env ?a ?s False [''10:00'', ''Mars'', ''trip'']
              = (Inr ?e, [''Mars'', ''trip''])"
    by code_simp
  have rp: "repair (datetime_today ref_env) False ?s ?e = Inr ?e" by code_simp
  have tz: "pytz_timezone ref_env ''Mars'' = Inl UnknownTimeZoneError" by code_simp
  have dec: "to_unicode ref_env (str_join '' '' [''Mars'', ''trip'']) (encoding ?a)
               = Inr ''Mars trip''"
    by code_simp
  have hp: "prefix ''Mars'' ''Mars trip''" by code_simp
  have "\<not> sublist '' :: '' ''Mars trip''" by code_simp
  then have nocut: "\<not> (\<exists>p q. ''Mars trip'' = p @ '' :: '' @ q \<and> length p < length ''Mars'')"
    by (auto simp: sublist_def)
  have dt: "default_timezone ?a = ''Europe/Berlin''" by code_simp
  from timezone_token [OF st en rp] tz run
  obtain body summary where
    vals: "map_of mars_event ''dtstart'' = Some (localize (default_timezone ?a) ?s)"
      "map_of mars_event ''dtend'' = Some (localize (default_timezone ?a) ?e)" and
    b: "to_unicode ref_env (str_join '' '' [''Mars'', ''trip'']) (encoding ?a) = Inr body" and
    sm: "map_of mars_event ''summary'' = Some (VText summary)" and
    iff: "prefix ''Mars'' body \<longrightarrow>
            (prefix ''Mars'' summary \<longleftrightarrow>
               \<not> (\<not> (truthy (description ?a) \<and> truthy (location ?a)) \<and>
                  (\<exists>p q. body = p @ '' :: '' @ q \<and> length p < length ''Mars'')))"
    by blast
  from b dec have body: "body = ''Mars trip''" by simp
  from iff hp nocut have heads: "prefix ''Mars'' summary" by (simp add: body)
  have "map_of mars_event ''summary'' = Some (VText ''Mars trip'')" by code_simp
  with sm have "summary = ''Mars trip''" by simp
  with heads have m3: "map_of mars_event ''summary'' = Some (VText ''Mars trip'') \<and>
                       prefix ''Mars'' ''Mars trip''"
    using sm by simp
  have run': "construct_event ref_env ?b = (Inr utc_event, [], [''trip''])"
    by code_simp
  have st': "resolve_start ref_env ?b = (Inr (?s, False), [], [''10:00'', ''UTC'', ''trip''])"
    by code_simp
  have en': "resolve_end ref_env ?b ?s False [''10:00'', ''UTC'', ''trip'']
              = (Inr ?e, [''UTC'', ''trip''])"
    by code_simp
  have tz': "pytz_timezone ref_env ''UTC'' = Inr ''UTC''" by code_simp
  from timezone_token [OF st' en' rp] run' tz'
  have u: "map_of utc_event ''dtstart'' = Some (localize ''UTC'' ?s) \<and>
           map_of utc_event ''dtend'' = Some (localize ''UTC'' ?e)"
    by simp
  from run tz vals dt m3 run' tz' u show ?thesis by simp
qed

subsection \<open>The repeat keyword\<close>

text \<open>
  Claim C8 as stated fails twice. The keyword is checked at line 246, after the
  dates, the timezone and the text: with the tokens 18:00 20:00 the call ends at
  line 224 with IndexError before the keyword \<open>fortnightly\<close> is looked at, and
  nothing is reported. And the guard of line 246 tests the truth value of the
  keyword: a supplied empty string is not checked, and the event is returned.
\<close>

theorem invalid_repeat_counterexample:
  "construct_event ref_env ((de_args [''18:00'', ''20:00''])\<lparr>repeat := Some ''fortnightly''\<rparr>)
     = (Inl IndexError, [], []) \<and>
   construct_event ref_env ((de_args [''18:00'', ''20:00'', ''x''])\<lparr>repeat := Some []\<rparr>)
     = (Inr plain_event, [], [''x''])"
  by code_simp

text \<open>
  Claim C8, amended. For every call in which the repeat keyword is supplied, is not
  empty, and is neither \<open>none\<close> nor one of daily, weekly, monthly, yearly: no event
  is returned; and whenever the call gets as far as the keyword (start and end
  resolved, repaired and localized, text decoded), the invalid keyword is reported
  through \<open>logger.fatal\<close> and FatalError is raised.
\<close>

theorem invalid_repeat:
  assumes "truthy (repeat a)" and "repeat a \<noteq> Some ''none''"
    and "the (repeat a) \<notin> set [''daily'', ''weekly'', ''monthly'', ''yearly'']"
  shows "(\<forall>ev. fst (construct_event E a) \<noteq> Inr ev) \<and>
         (\<forall>s ad log0 l0 e l1 e' vs ve l2 body.
            resolve_start E a = (Inr (s, ad), log0, l0) \<and>
            resolve_end E a s ad l0 = (Inr e, l1) \<and>
            repair (datetime_today E) ad s e = Inr e' \<and>
            localize_step E a ad s e' l1 = (Inr (vs, ve), l2) \<and>
            to_unicode E (str_join '' '' l2) (encoding a) = Inr body
            \<longrightarrow> construct_event E a = (Inl FatalError, [InvalidRepeat], l2))"
proof -
  have rr: "add_rrule E a ev0 = (Inl FatalError, [InvalidRepeat])" for ev0
    using assms by (simp add: add_rrule_def)
  have bld: "build_event E a vs ve body = (Inl FatalError, [InvalidRepeat])" for vs ve body
    by (simp add: build_event_def rr split: prod.splits)
  have never: "\<forall>ev. fst (construct_event E a) \<noteq> Inr ev"
  proof (intro allI notI)
    fix ev
    assume "fst (construct_event E a) = Inr ev"
    then obtain log lf where "construct_event E a = (Inr ev, log, lf)"
      by (cases "construct_event E a") auto
    from construct_event_phases [OF this] bld show False by auto
  qed
  have reach: "\<forall>s ad log0 l0 e l1 e' vs ve l2 body.
            resolve_start E a = (Inr (s, ad), log0, l0) \<and>
            resolve_end E a s ad l0 = (Inr e, l1) \<and>
            repair (datetime_today E) ad s e = Inr e' \<and>
            localize_step E a ad s e' l1 = (Inr (vs, ve), l2) \<and>
            to_unicode E (str_join '' '' l2) (encoding a) = Inr body
            \<longrightarrow> construct_event E a = (Inl FatalError, [InvalidRepeat], l2)"
    by (auto simp: construct_event_def bld)
  from never reach show ?thesis by blast
qed

theorem invalid_repeat_witness:
  "truthy (Some ''fortnightly'') \<and>
   construct_event ref_env
     ((de_args [''25.10.'', ''18:00'', ''20:00'', ''foo''])\<lparr>repeat := Some ''fortnightly''\<rparr>)
     = (Inl FatalError, [InvalidRepeat], [''foo''])"
proof -
  let ?a = "(de_args [''25.10.'', ''18:00'', ''20:00'', ''foo''])\<lparr>repeat := Some ''fortnightly''\<rparr>"
  let ?s = "mk_datetime 2024 10 25 18 0"
  let ?e = "mk_datetime 2024 10 25 20 0"
  have t: "truthy (repeat ?a)" by code_simp
  have n: "repeat ?a \<noteq> Some ''none''" by code_simp
  have k: "the (repeat ?a) \<notin> set [''daily'', ''weekly'', ''monthly'', ''yearly'']"
    by code_simp
  have st: "resolve_start ref_env ?a = (Inr (?s, False), [], [''20:00'', ''foo''])"
    by code_simp
  have en: "resolve_end ref_env ?a ?s False [''20:00'', ''foo''] = (Inr ?e, [''foo''])"
    by code_simp
  have rp: "repair (datetime_today ref_env) False ?s ?e = Inr ?e" by code_simp
  have lc: "localize_step ref_env ?a False ?s ?e [''foo'']
              = (Inr (localize ''Europe/Berlin'' ?s, localize ''Europe/Berlin'' ?e), [''foo''])"
    by code_simp
  have dc: "to_unicode ref_env (str_join '' '' [''foo'']) (encoding ?a) = Inr ''foo''"
    by code_simp
  from invalid_repeat [OF t n k, of ref_env] st en rp lc dc
  have "construct_event ref_env ?a = (Inl FatalError, [InvalidRepeat], [''foo''])"
    by blast
  moreover have "truthy (Some ''fortnightly'')" by code_simp
  ultimately show ?thesis by simp
qed

subsection \<open>An empty token list at the timezone step\<close>

text \<open>
  Adding a day to a valid date overflows on 9999-12-31 and nowhere else, and the
  repair of a timed event with valid start and end fails in that case only.
\<close>

lemma add_days_one_cases:
  assumes "1 \<le> year d" and "year d \<le> 9999" and "month d \<le> 12"
    and "day d \<le> days_in_month (year d) (month d)"
  shows "(date_of d = (9999, 12, 31) \<longrightarrow> add_days d 1 = Inl OverflowError) \<and>
         (date_of d \<noteq> (9999, 12, 31) \<longrightarrow> (\<exists>d'. add_days d 1 = Inr d'))"
proof (intro conjI impI)
  assume "date_of d = (9999, 12, 31)"
  then have "next_day (date_of d) = (10000, 1, 1)"
    by (simp add: next_day_def days_in_month_def)
  then show "add_days d 1 = Inl OverflowError"
    by (simp add: add_days_def shift_days_one with_date_def)
next
  assume other: "date_of d \<noteq> (9999, 12, 31)"
  have dec: "days_in_month (year d) 12 = 31" by (simp add: days_in_month_def)
  obtain y m dd where nd: "next_day (date_of d) = (y, m, dd)"
    by (cases "next_day (date_of d)")
  have "1 \<le> y \<and> y \<le> 9999"
  proof (cases "day d < days_in_month (year d) (month d)")
    case True
    with nd assms show ?thesis by (auto simp: next_day_def date_of_def)
  next
    case False
    show ?thesis
    proof (cases "month d < 12")
      case True
      with False nd assms show ?thesis by (auto simp: next_day_def date_of_def)
    next
      case last: False
      with assms have m: "month d = 12" by simp
      with False assms dec have dd: "day d = 31" by simp
      from other m dd have "year d \<noteq> 9999" by (simp add: date_of_def)
      with False last nd assms show ?thesis by (auto simp: next_day_def date_of_def)
    qed
  qed
  with nd show "\<exists>d'. add_days d 1 = Inr d'"
    by (simp add: add_days_def shift_days_one with_date_def)
qed

lemma repair_timed_cases:
  assumes vs: "valid_datetime dtstart" and ve: "valid_datetime dtend"
  shows "(dt_less dtend dtstart \<and>
          dt_less (combine (date_of dtstart) (hour dtend, minute dtend, 0, 0)) dtstart \<and>
          date_of dtstart = (9999, 12, 31)
            \<longrightarrow> repair today False dtstart dtend = Inl OverflowError) \<and>
         (\<not> (dt_less dtend dtstart \<and>
             dt_less (combine (date_of dtstart) (hour dtend, minute dtend, 0, 0)) dtstart \<and>
             date_of dtstart = (9999, 12, 31))
            \<longrightarrow> (\<exists>dtend'. repair today False dtstart dtend = Inr dtend'))"
proof -
  let ?same = "combine (date_of dtstart) (hour dtend, minute dtend, 0, 0)"
  have new: "datetime_new (slice 0 3 (timetuple dtstart) @ slice 3 5 (timetuple dtend))
               = Inr ?same"
    using vs ve
    by (simp add: datetime_new_def slice_def timetuple_def valid_datetime_def arg_or0_def
        combine_def date_of_def)
  have rep: "repair today False dtstart dtend =
               (if dt_less dtend dtstart
                then (if dt_less ?same dtstart then add_days ?same 1 else Inr ?same)
                else Inr dtend)"
    by (simp add: repair_def repair_order_def bnd_def new)
  have same_date: "date_of ?same = date_of dtstart"
    by (cases "date_of dtstart") (simp add: combine_def date_of_def)
  have "1 \<le> year ?same" and "year ?same \<le> 9999" and "month ?same \<le> 12"
    and "day ?same \<le> days_in_month (year ?same) (month ?same)"
    using vs by (simp_all add: combine_def date_of_def valid_datetime_def)
  then have add: "(date_of ?same = (9999, 12, 31) \<longrightarrow> add_days ?same 1 = Inl OverflowError) \<and>
         (date_of ?same \<noteq> (9999, 12, 31) \<longrightarrow> (\<exists>d'. add_days ?same 1 = Inr d'))"
    by (rule add_days_one_cases)
  show ?thesis
    using add by (auto simp: rep same_date)
qed

text \<open>
  Claim C9 as stated fails: the repair of lines 212 to 216 comes before the timezone
  step and can raise. The tokens 9999-12-31 09:00 08:00 give a timed start and end
  and leave no token; the end lies before the start, a day is added to 9999-12-31
  at line 216, and the call ends there with OverflowError, not with IndexError.
\<close>

theorem construct_event_overflow_counterexample:
  "resolve_start ref_env (iso_args [''9999-12-31'', ''09:00'', ''08:00''])
     = (Inr (mk_datetime 9999 12 31 9 0, False), [], [''08:00'']) \<and>
   resolve_end ref_env (iso_args [''9999-12-31'', ''09:00'', ''08:00''])
       (mk_datetime 9999 12 31 9 0) False [''08:00'']
     = (Inr (mk_datetime 9999 12 31 8 0), []) \<and>
   repair (datetime_today ref_env) False (mk_datetime 9999 12 31 9 0)
       (mk_datetime 9999 12 31 8 0)
     = Inl OverflowError \<and>
   construct_event ref_env (iso_args [''9999-12-31'', ''09:00'', ''08:00''])
     = (Inl OverflowError, [], [])"
  by code_simp

text \<open>
  Claim C9, amended. When the start and end of a timed (not all-day) event are
  resolved and nothing is left of the token list, no event is built, the exception
  that leaves the call is not FatalError and \<open>logger.fatal\<close> is never called. The
  timezone step reads \<open>date_list[0]\<close> on the empty list and raises IndexError, and
  the call ends with that IndexError whenever the repair of lines 212 to 216 has
  returned. For valid start and end the repair fails in one case only, with
  OverflowError: the start is on 9999-12-31 and the end, set on that day, is still
  before it, so that line 216 adds a day. The tokens 09:00 10:00 under a plain time
  format end with IndexError.
\<close>

theorem construct_event_no_tokens_IndexError:
  assumes st: "resolve_start E a = (Inr (dtstart, False), log, l)"
    and en: "resolve_end E a dtstart False l = (Inr dtend, [])"
  shows "(\<forall>d. localize_step E a False dtstart d [] = (Inl IndexError, [])) \<and>
         (\<forall>ev. fst (construct_event E a) \<noteq> Inr ev) \<and>
         fst (construct_event E a) \<noteq> Inl FatalError \<and>
         fst (snd (construct_event E a)) = [] \<and>
         (\<forall>dtend'. repair (datetime_today E) False dtstart dtend = Inr dtend'
            \<longrightarrow> construct_event E a = (Inl IndexError, [], [])) \<and>
         (valid_datetime dtstart \<and> valid_datetime dtend \<longrightarrow>
            construct_event E a =
              (if dt_less dtend dtstart \<and>
                  dt_less (combine (date_of dtstart) (hour dtend, minute dtend, 0, 0))
                    dtstart \<and>
                  date_of dtstart = (9999, 12, 31)
               then (Inl OverflowError, [], [])
               else (Inl IndexError, [], [])))"
proof -
  have step: "\<forall>d. localize_step E a False dtstart d [] = (Inl IndexError, [])"
    by (simp add: localize_step_def)
  have ok: "construct_event E a = (Inl IndexError, [], [])"
    if "repair (datetime_today E) False dtstart dtend = Inr dtend'" for dtend'
    using st en that by (simp add: construct_event_def localize_step_def)
  have bad: "construct_event E a = (Inl x, [], [])"
    if "repair (datetime_today E) False dtstart dtend = Inl x" for x
    using st en that by (simp add: construct_event_def)
  have nofatal: "x \<noteq> FatalError"
    if "repair (datetime_today E) False dtstart dtend = Inl x" for x
  proof -
    from that have "repair_order dtstart dtend = Inl x" by (simp add: repair_def bnd_def)
    then show ?thesis by (rule repair_order_exn)
  qed
  have outcome: "(\<forall>ev. fst (construct_event E a) \<noteq> Inr ev) \<and>
         fst (construct_event E a) \<noteq> Inl FatalError \<and>
         fst (snd (construct_event E a)) = []"
  proof (cases "repair (datetime_today E) False dtstart dtend")
    case (Inl x)
    with bad [OF Inl] nofatal [OF Inl] show ?thesis by simp
  next
    case (Inr dtend')
    with ok [OF Inr] show ?thesis by simp
  qed
  have exact: "construct_event E a =
              (if dt_less dtend dtstart \<and>
                  dt_less (combine (date_of dtstart) (hour dtend, minute dtend, 0, 0))
                    dtstart \<and>
                  date_of dtstart = (9999, 12, 31)
               then (Inl OverflowError, [], [])
               else (Inl IndexError, [], []))"
    if v: "valid_datetime dtstart \<and> valid_datetime dtend"
  proof -
    from v have vs: "valid_datetime dtstart" and ve: "valid_datetime dtend" by simp_all
    note rc = repair_timed_cases [OF vs ve, of "datetime_today E"]
    show ?thesis
    proof (cases "dt_less dtend dtstart \<and>
                  dt_less (combine (date_of dtstart) (hour dtend, minute dtend, 0, 0))
                    dtstart \<and>
                  date_of dtstart = (9999, 12, 31)")
      case True
      with rc have "repair (datetime_today E) False dtstart dtend = Inl OverflowError"
        by blast
      from bad [OF this] show ?thesis by (simp only: if_P [OF True])
    next
      case False
      with rc obtain dtend' where
        "repair (datetime_today E) False dtstart dtend = Inr dtend'"
        by blast
      from ok [OF this] show ?thesis by (simp only: if_not_P [OF False])
    qed
  qed
  from step outcome ok exact show ?thesis by blast
qed

theorem construct_event_no_tokens_IndexError_witness:
  "resolve_start ref_env (iso_args [''09:00'', ''10:00''])
     = (Inr (mk_datetime 2024 5 20 9 0, False), [], [''10:00'']) \<and>
   resolve_end ref_env (iso_args [''09:00'', ''10:00'']) (mk_datetime 2024 5 20 9 0) False
       [''10:00'']
     = (Inr (mk_datetime 2024 5 20 10 0), []) \<and>
   repair (datetime_today ref_env) False (mk_datetime 2024 5 20 9 0)
       (mk_datetime 2024 5 20 10 0)
     = Inr (mk_datetime 2024 5 20 10 0) \<and>
   construct_event ref_env (iso_args [''09:00'', ''10:00'']) = (Inl IndexError, [], [])"
proof -
  have s: "resolve_start ref_env (iso_args [''09:00'', ''10:00''])
             = (Inr (mk_datetime 2024 5 20 9 0, False), [], [''10:00''])"
    by code_simp
  have e: "resolve_end ref_env (iso_args [''09:00'', ''10:00''])
             (mk_datetime 2024 5 20 9 0) False [''10:00'']
             = (Inr (mk_datetime 2024 5 20 10 0), [])"
    by code_simp
  have r: "repair (datetime_today ref_env) False (mk_datetime 2024 5 20 9 0)
             (mk_datetime 2024 5 20 10 0) = Inr (mk_datetime 2024 5 20 10 0)"
    by code_simp
  from construct_event_no_tokens_IndexError [OF s e] r
  have "construct_event ref_env (iso_args [''09:00'', ''10:00'']) = (Inl IndexError, [], [])"
    by blast
  with s e r show ?thesis by simp
qed

subsection \<open>new_event with a datetime as start\<close>

text \<open>
  Claim C10. A datetime passed to new_event as dtstart takes the branch for dates: the
  call behaves as if only its calendar date had been passed. When an event is built,
  its start is that date combined with the time of day of the next full hour after
  the clock reading, so the hour and minute of the caller's value are never used: any
  other datetime on the same date gives the same result.
\<close>

theorem new_event_datetime_treated_as_date:
  "new_event E (Some (DateTimeArg d)) dtend summary timezone stamp
     = new_event E (Some (DateArg (date_of d))) dtend summary timezone stamp \<and>
   (\<forall>d'. date_of d' = date_of d \<longrightarrow>
      new_event E (Some (DateTimeArg d')) dtend summary timezone stamp
        = new_event E (Some (DateTimeArg d)) dtend summary timezone stamp) \<and>
   (\<forall>ev. new_event E (Some (DateTimeArg d)) dtend summary timezone stamp = Inr ev \<longrightarrow>
      (\<exists>now inonehour.
         datetime_new (slice 0 4 (timetuple (datetime_now E))) = Inr now \<and>
         add_minutes now 60 = Inr inonehour \<and>
         map_of ev ''dtstart''
           = Some (VDateTime (combine (date_of d) (time_of inonehour)) timezone)))"
proof (intro conjI allI impI)
  show "new_event E (Some (DateTimeArg d)) dtend summary timezone stamp
          = new_event E (Some (DateArg (date_of d))) dtend summary timezone stamp"
    by (simp add: new_event_def date_part_def)
next
  fix d' :: datetime
  assume "date_of d' = date_of d"
  then show "new_event E (Some (DateTimeArg d')) dtend summary timezone stamp
               = new_event E (Some (DateTimeArg d)) dtend summary timezone stamp"
    by (simp add: new_event_def date_part_def)
next
  fix ev
  assume run: "new_event E (Some (DateTimeArg d)) dtend summary timezone stamp = Inr ev"
  then obtain now where
    n: "datetime_new (slice 0 4 (timetuple (datetime_now E))) = Inr now"
    by (auto simp: new_event_def bnd_def split: sum.splits)
  with run obtain inonehour where h: "add_minutes now 60 = Inr inonehour"
    by (auto simp: new_event_def bnd_def split: sum.splits)
  from run n h have
    "map_of ev ''dtstart'' = Some (VDateTime (combine (date_of d) (time_of inonehour)) timezone)"
    by (auto simp: new_event_def bnd_def date_part_def maybe_localize_def Let_def
        split: sum.splits option.splits)
  with n h show "\<exists>now inonehour.
         datetime_new (slice 0 4 (timetuple (datetime_now E))) = Inr now \<and>
         add_minutes now 60 = Inr inonehour \<and>
         map_of ev ''dtstart''
           = Some (VDateTime (combine (date_of d) (time_of inonehour)) timezone)"
    by blast
qed

theorem new_event_datetime_treated_as_date_witness:
  "new_event ref_env (Some (DateTimeArg (mk_datetime 2024 7 1 15 45))) None None None
       (mk_datetime 2024 5 20 8 15) = Inr july_event \<and>
   new_event ref_env (Some (DateArg (2024, 7, 1))) None None None
       (mk_datetime 2024 5 20 8 15) = Inr july_event \<and>
   new_event ref_env (Some (DateTimeArg (mk_datetime 2024 7 1 23 59))) None None None
       (mk_datetime 2024 5 20 8 15) = Inr july_event \<and>
   map_of july_event ''dtstart'' = Some (VDateTime (mk_datetime 2024 7 1 9 0) None)"
proof -
  have run: "new_event ref_env (Some (DateTimeArg (mk_datetime 2024 7 1 15 45))) None None
               None (mk_datetime 2024 5 20 8 15) = Inr july_event"
    by code_simp
  have d1: "date_of (mk_datetime 2024 7 1 15 45) = (2024, 7, 1)" by code_simp
  have d2: "date_of (mk_datetime 2024 7 1 23 59) = date_of (mk_datetime 2024 7 1 15 45)"
    by code_simp
  have st: "map_of july_event ''dtstart'' = Some (VDateTime (mk_datetime 2024 7 1 9 0) None)"
    by code_simp
  note inst = new_event_datetime_treated_as_date
    [of ref_env "mk_datetime 2024 7 1 15 45" None None None "mk_datetime 2024 5 20 8 15"]
  from inst run d1 have a: "new_event ref_env (Some (DateArg (2024, 7, 1))) None None None
       (mk_datetime 2024 5 20 8 15) = Inr july_event"
    by simp
  from inst d2 run have b: "new_event ref_env (Some (DateTimeArg (mk_datetime 2024 7 1 23 59)))
       None None None (mk_datetime 2024 5 20 8 15) = Inr july_event"
    by simp
  from run a b st show ?thesis by simp
qed

end
